theory Spec2Isabelle
  imports Complex_Main "HOL-Library.AList"
begin

section \<open>Values, errors and the outside world\<close>

text \<open>
  The program is \<^verbatim>\<open>src/lab8/ataix_lab08.py\<close>. Its data are JSON documents handled as
  Python objects: a \<^verbatim>\<open>dict\<close> is an association list in insertion order with distinct
  keys, a \<^verbatim>\<open>list\<close> is a list. Python's \<^verbatim>\<open>float\<close> is idealised as an exact rational
  (\<^typ>\<open>rat\<close>): every arithmetic step is exact, there is no NaN and no infinity. JSON
  integers and floats are not told apart.
\<close>

datatype json =
    JNull
  | JBool bool
  | JNum rat
  | JStr string
  | JArr "json list"
  | JObj "(string \<times> json) list"

text \<open>The exceptions the program can meet. \<open>PermissionError\<close> is the only one that
  \<^verbatim>\<open>run_lab\<close> re-raises from inside its loops.\<close>

datatype error =
    PermissionError
  | RuntimeError
  | ValueError
  | TypeError
  | KeyError
  | AttributeError
  | ZeroDivisionError
  | IndexError
  | JSONDecodeError

text \<open>The tag in front of every line the program prints.\<close>

datatype level = INFO | WARN | ERROR | SKIP | OK | DONE

text \<open>A \<^verbatim>\<open>requests.Response\<close>: the status code, the body as text, and the body decoded by
  \<^verbatim>\<open>resp.json()\<close> (\<open>None\<close> when decoding raises).\<close>

record response =
  status_code :: nat
  resp_text :: string
  resp_body :: "json option"

text \<open>The body of \<^verbatim>\<open>POST /api/orders\<close>. The source sends \<^verbatim>\<open>str(p)\<close> and \<^verbatim>\<open>str(q)\<close>; the
  model keeps the numbers those strings denote.\<close>

record order_body =
  b_symbol :: string
  b_side :: string
  b_type :: string
  b_price :: rat
  b_quantity :: rat

text \<open>A call of \<^verbatim>\<open>try_request\<close>: method, path, the API key if one is passed, and
  the body of a POST.\<close>

datatype request =
    GET string "string option"
  | POST string "string option" order_body

text \<open>The content of the file \<^verbatim>\<open>out_file\<close>: missing, present but not readable as JSON,
  or a JSON document.\<close>

datatype file_state = Absent | Unparsable | Document json

text \<open>
  Everything the program asks of its surroundings: \<open>net n r\<close> is what \<^verbatim>\<open>try_request\<close>
  returns for request \<open>r\<close> when it is the \<open>n\<close>-th call of the run (\<open>None\<close>: no header
  variant obtained a response); \<open>parse_float\<close> and \<open>parse_int\<close> are Python's \<^verbatim>\<open>float\<close>
  and \<^verbatim>\<open>int\<close> on a string (\<open>None\<close>: \<^verbatim>\<open>ValueError\<close>); \<open>str_of\<close> is \<^verbatim>\<open>str\<close> on a
  value that is not already a string; \<open>clock n\<close> is \<^verbatim>\<open>int(time.time())\<close> after \<open>n\<close>
  requests.
\<close>

record env =
  net :: "nat \<Rightarrow> request \<Rightarrow> response option"
  parse_float :: "string \<Rightarrow> rat option"
  parse_int :: "string \<Rightarrow> int option"
  str_of :: "json \<Rightarrow> string"
  clock :: "nat \<Rightarrow> int"

text \<open>The state of one run: the dictionary \<^verbatim>\<open>saved\<close> in memory, the file on disk, the
  requests made so far in order, and the lines printed.\<close>

record state =
  saved :: json
  disk :: file_state
  sent :: "request list"
  out :: "level list"

definition tick :: "state \<Rightarrow> nat" where
  "tick st = length (sent st)"

definition say :: "level \<Rightarrow> state \<Rightarrow> state" where
  "say l st = st\<lparr>out := out st @ [l]\<rparr>"

section \<open>Python primitives\<close>

fun truthy :: "json \<Rightarrow> bool" where
  "truthy JNull = False"
| "truthy (JBool b) = b"
| "truthy (JNum r) = (r \<noteq> 0)"
| "truthy (JStr s) = (s \<noteq> [])"
| "truthy (JArr xs) = (xs \<noteq> [])"
| "truthy (JObj kvs) = (kvs \<noteq> [])"

text \<open>\<^verbatim>\<open>a or b\<close>\<close>

definition py_or :: "json \<Rightarrow> json \<Rightarrow> json" where
  "py_or a b = (if truthy a then a else b)"

fun is_dict :: "json \<Rightarrow> bool" where
  "is_dict (JObj kvs) = True"
| "is_dict _ = False"

text \<open>\<^verbatim>\<open>d.get(k)\<close> and \<^verbatim>\<open>d.get(k, default)\<close>; only a \<^verbatim>\<open>dict\<close> has the method.\<close>

fun py_get_default :: "json \<Rightarrow> string \<Rightarrow> json \<Rightarrow> error + json" where
  "py_get_default (JObj kvs) k d = (case map_of kvs k of None \<Rightarrow> Inr d | Some v \<Rightarrow> Inr v)"
| "py_get_default _ k d = Inl AttributeError"

definition py_get :: "json \<Rightarrow> string \<Rightarrow> error + json" where
  "py_get j k = py_get_default j k JNull"

text \<open>\<^verbatim>\<open>d.get(k)\<close> where the source has already established that \<open>d\<close> is a \<^verbatim>\<open>dict\<close>.\<close>

fun dict_get :: "json \<Rightarrow> string \<Rightarrow> json" where
  "dict_get (JObj kvs) k = (case map_of kvs k of None \<Rightarrow> JNull | Some v \<Rightarrow> v)"
| "dict_get _ k = JNull"

text \<open>\<^verbatim>\<open>x[k]\<close> with a string key.\<close>

fun py_getitem :: "json \<Rightarrow> string \<Rightarrow> error + json" where
  "py_getitem (JObj kvs) k = (case map_of kvs k of None \<Rightarrow> Inl KeyError | Some v \<Rightarrow> Inr v)"
| "py_getitem _ k = Inl TypeError"

text \<open>\<^verbatim>\<open>x[k] = v\<close> with a string key: an existing key keeps its place, a new one goes last.\<close>

fun py_setitem :: "json \<Rightarrow> string \<Rightarrow> json \<Rightarrow> error + json" where
  "py_setitem (JObj kvs) k v = Inr (JObj (AList.update k v kvs))"
| "py_setitem _ k v = Inl TypeError"

fun contains :: "string \<Rightarrow> string \<Rightarrow> bool" where
  "contains s [] = (s = [])"
| "contains s (c # cs) = (take (length s) (c # cs) = s \<or> contains s cs)"

text \<open>\<^verbatim>\<open>k in x\<close> with a string \<open>k\<close>: a key of a dict, an element of a list, a substring of
  a string; anything else is not iterable.\<close>

fun py_in :: "string \<Rightarrow> json \<Rightarrow> error + bool" where
  "py_in k (JObj kvs) = Inr (k \<in> set (map fst kvs))"
| "py_in k (JArr xs) = Inr (JStr k \<in> set xs)"
| "py_in k (JStr s) = Inr (contains k s)"
| "py_in k _ = Inl TypeError"

text \<open>\<^verbatim>\<open>float(v)\<close>\<close>

fun py_float :: "env \<Rightarrow> json \<Rightarrow> error + rat" where
  "py_float env (JNum r) = Inr r"
| "py_float env (JBool b) = Inr (if b then 1 else 0)"
| "py_float env (JStr s) = (case parse_float env s of None \<Rightarrow> Inl ValueError | Some r \<Rightarrow> Inr r)"
| "py_float env _ = Inl TypeError"

text \<open>\<^verbatim>\<open>int(x)\<close> on a float cuts the fraction off, towards zero.\<close>

definition py_trunc :: "rat \<Rightarrow> int" where
  "py_trunc x = (if 0 \<le> x then \<lfloor>x\<rfloor> else \<lceil>x\<rceil>)"

fun py_int :: "env \<Rightarrow> json \<Rightarrow> error + int" where
  "py_int env (JNum r) = Inr (py_trunc r)"
| "py_int env (JBool b) = Inr (if b then 1 else 0)"
| "py_int env (JStr s) = (case parse_int env s of None \<Rightarrow> Inl ValueError | Some i \<Rightarrow> Inr i)"
| "py_int env _ = Inl TypeError"

text \<open>\<^verbatim>\<open>str(v)\<close>; a string is its own \<^verbatim>\<open>str\<close>.\<close>

fun py_str :: "env \<Rightarrow> json \<Rightarrow> string" where
  "py_str env (JStr s) = s"
| "py_str env v = str_of env v"

text \<open>Rounding to the nearest integer, a tie going to the even neighbour: what Python's
  \<^verbatim>\<open>format\<close> does with the exact value of its argument.\<close>

definition round_half_even :: "rat \<Rightarrow> int" where
  "round_half_even y =
     (let f = \<lfloor>y\<rfloor>; d = y - of_int f
      in if d < 1 / 2 then f else if 1 / 2 < d then f + 1 else if even f then f else f + 1)"

text \<open>\<^verbatim>\<open>float(f"{x:.{n}f}")\<close>\<close>

definition fmt_round :: "nat \<Rightarrow> rat \<Rightarrow> rat" where
  "fmt_round n x = of_int (round_half_even (x * 10 ^ n)) / 10 ^ n"

definition lower_char :: "char \<Rightarrow> char" where
  "lower_char c =
     (let n = (of_char c :: nat) in if 65 \<le> n \<and> n \<le> 90 then char_of (n + 32) else c)"

definition upper_char :: "char \<Rightarrow> char" where
  "upper_char c =
     (let n = (of_char c :: nat) in if 97 \<le> n \<and> n \<le> 122 then char_of (n - 32) else c)"

text \<open>\<^verbatim>\<open>s.lower()\<close> and \<^verbatim>\<open>s.upper()\<close> on the ASCII letters (a \<^typ>\<open>char\<close> is a byte).\<close>

definition lower :: "string \<Rightarrow> string" where
  "lower s = map lower_char s"

definition upper :: "string \<Rightarrow> string" where
  "upper s = map upper_char s"

text \<open>Sequencing of steps that can raise: the first exception ends the chain.\<close>

definition and_then :: "error + 'a \<Rightarrow> ('a \<Rightarrow> error + 'b) \<Rightarrow> error + 'b" where
  "and_then m f = (case m of Inl e \<Rightarrow> Inl e | Inr x \<Rightarrow> f x)"

section \<open>HTTP and the store file\<close>

text \<open>
  \<^verbatim>\<open>try_request\<close> tries up to five header variants and returns the first response of
  any status, or \<^verbatim>\<open>None\<close>. Its callers see that result only, so the model takes it from
  \<open>net\<close> and records the call.
\<close>

definition try_request :: "env \<Rightarrow> state \<Rightarrow> request \<Rightarrow> response option \<times> state" where
  "try_request env st req = (net env (tick st) req, st\<lparr>sent := sent st @ [req]\<rparr>)"

text \<open>\<^verbatim>\<open>resp.ok\<close>: the status is not a 4xx or 5xx.\<close>

definition ok :: "response \<Rightarrow> bool" where
  "ok r = (\<not> (400 \<le> status_code r \<and> status_code r < 600))"

definition denied :: "response \<Rightarrow> bool" where
  "denied r = (status_code r = 401 \<or> status_code r = 403)"

definition decode_json :: "response \<Rightarrow> error + json" where
  "decode_json r = (case resp_body r of None \<Rightarrow> Inl JSONDecodeError | Some j \<Rightarrow> Inr j)"

definition empty_store :: json where
  "empty_store = JObj [(''orders'', JArr [])]"

definition load_saved :: "state \<Rightarrow> json \<times> state" where
  "load_saved st =
     (case disk st of
        Absent \<Rightarrow> (empty_store, st)
      | Unparsable \<Rightarrow> (empty_store, say ERROR st)
      | Document j \<Rightarrow> (j, st))"

definition save_saved :: "state \<Rightarrow> state" where
  "save_saved st = st\<lparr>disk := Document (saved st)\<rparr>"


text \<open>\<^verbatim>\<open>k in d\<close> where \<open>d\<close> is known to be a \<^verbatim>\<open>dict\<close>.\<close>

fun has_key :: "json \<Rightarrow> string \<Rightarrow> bool" where
  "has_key (JObj kvs) k = (k \<in> set (map fst kvs))"
| "has_key _ k = False"

text \<open>\<^verbatim>\<open>x[0]\<close>\<close>

fun py_first :: "json \<Rightarrow> error + json" where
  "py_first (JArr []) = Inl IndexError"
| "py_first (JArr (x # xs)) = Inr x"
| "py_first (JStr []) = Inl IndexError"
| "py_first (JStr (c # cs)) = Inr (JStr [c])"
| "py_first (JObj kvs) = Inl KeyError"
| "py_first _ = Inl TypeError"

section \<open>API wrappers\<close>

definition get_balance :: "env \<Rightarrow> state \<Rightarrow> string \<Rightarrow> string \<Rightarrow> (error + json) \<times> state" where
  "get_balance env st api_key currency =
     (case try_request env st (GET (''/api/user/balances/'' @ currency) (Some api_key)) of
        (None, st1) \<Rightarrow> (Inl RuntimeError, st1)
      | (Some resp, st1) \<Rightarrow>
          if denied resp then (Inl PermissionError, st1)
          else if \<not> ok resp then (Inl RuntimeError, st1)
          else (decode_json resp, st1))"

text \<open>The body shared by the three reads of \<^verbatim>\<open>extract_available_usdt\<close>:
  \<^verbatim>\<open>if key in res: try: return float(res[key]) except: pass\<close>. The membership test is
  outside the \<^verbatim>\<open>try\<close>.\<close>

definition read_amount :: "env \<Rightarrow> json \<Rightarrow> string \<Rightarrow> error + rat option" where
  "read_amount env res key =
     (case py_in key res of
        Inl e \<Rightarrow> Inl e
      | Inr present \<Rightarrow>
          if present then
            (case py_getitem res key of
               Inl e \<Rightarrow> Inr None
             | Inr v \<Rightarrow> (case py_float env v of Inl e \<Rightarrow> Inr None | Inr x \<Rightarrow> Inr (Some x)))
          else Inr None)"

fun read_first :: "env \<Rightarrow> json \<Rightarrow> string list \<Rightarrow> error + rat option" where
  "read_first env res [] = Inr None"
| "read_first env res (key # keys) =
     (case read_amount env res key of
        Inl e \<Rightarrow> Inl e
      | Inr (Some x) \<Rightarrow> Inr (Some x)
      | Inr None \<Rightarrow> read_first env res keys)"

definition extract_available_usdt ::
  "env \<Rightarrow> state \<Rightarrow> json \<Rightarrow> rat \<Rightarrow> (error + rat) \<times> state" where
  "extract_available_usdt env st balance_json fallback =
     (case (if is_dict balance_json then
              (let res = py_or (dict_get balance_json ''result'') (JObj [])
               in case read_amount env res ''available'' of
                    Inl e \<Rightarrow> Inl e
                  | Inr (Some x) \<Rightarrow> Inr (Some x)
                  | Inr None \<Rightarrow> read_first env res [''free'', ''total''])
            else Inr None) of
        Inl e \<Rightarrow> (Inl e, st)
      | Inr (Some x) \<Rightarrow> (Inr x, st)
      | Inr None \<Rightarrow> (Inr fallback, say WARN st))"

definition get_symbols :: "env \<Rightarrow> state \<Rightarrow> string option \<Rightarrow> (error + json) \<times> state" where
  "get_symbols env st api_key =
     (case try_request env st (GET ''/api/symbols'' api_key) of
        (None, st1) \<Rightarrow> (Inl RuntimeError, st1)
      | (Some resp, st1) \<Rightarrow>
          if \<not> ok resp then (Inl RuntimeError, st1) else (decode_json resp, st1))"

fun find_entry :: "json list \<Rightarrow> string \<Rightarrow> json option" where
  "find_entry [] pair = None"
| "find_entry (e # es) pair =
     (if is_dict e \<and> dict_get e ''symbol'' = JStr pair then Some e else find_entry es pair)"

definition find_symbol_record :: "json \<Rightarrow> string \<Rightarrow> error + json" where
  "find_symbol_record symbols_json pair =
     (case (if is_dict symbols_json then dict_get symbols_json ''result'' else JNull) of
        JArr entries \<Rightarrow>
          (case find_entry entries pair of None \<Rightarrow> Inl RuntimeError | Some e \<Rightarrow> Inr e)
      | _ \<Rightarrow> Inl RuntimeError)"

record limits =
  lotSize :: rat
  minQty :: rat
  minNotional :: rat

definition get_symbol_limits :: "env \<Rightarrow> json \<Rightarrow> error + limits" where
  "get_symbol_limits env srec =
     and_then (py_get_default srec ''lotSize'' (JNum (1 / 1000000))) (\<lambda>v1.
     and_then (py_float env v1) (\<lambda>lot_size.
     and_then (py_get_default srec ''minQty'' (JNum lot_size)) (\<lambda>v2.
     and_then (py_float env v2) (\<lambda>min_qty.
     and_then (py_get_default srec ''minNotional'' (JNum (1 / 2))) (\<lambda>v3.
     and_then (py_float env v3) (\<lambda>min_notional.
     Inr \<lparr>lotSize = lot_size, minQty = min_qty, minNotional = min_notional\<rparr>))))))"

text \<open>Lines 167 to 177 of \<^verbatim>\<open>get_public_best_bid\<close>: from the decoded order book to the
  price of its first bid.\<close>

definition first_bid_price :: "env \<Rightarrow> response \<Rightarrow> error + rat" where
  "first_bid_price env resp =
     and_then (decode_json resp) (\<lambda>data.
     and_then (py_get_default data ''result'' (JObj [])) (\<lambda>res.
     and_then (py_get res ''bids'') (\<lambda>b.
     (let bids = py_or b (JArr [])
      in if \<not> truthy bids then Inl RuntimeError
         else and_then (py_first bids) (\<lambda>top_bid.
           (case top_bid of
              JArr xs \<Rightarrow> (case xs of [] \<Rightarrow> Inl RuntimeError | x # rest \<Rightarrow> py_float env x)
            | JObj kvs \<Rightarrow>
                (if has_key top_bid ''price''
                 then and_then (py_getitem top_bid ''price'') (py_float env)
                 else Inl RuntimeError)
            | _ \<Rightarrow> Inl RuntimeError))))))"

definition get_public_best_bid :: "env \<Rightarrow> state \<Rightarrow> string \<Rightarrow> (error + rat) \<times> state" where
  "get_public_best_bid env st pair =
     (case try_request env st (GET (''/api/cmc/v1/orderbook/'' @ pair) None) of
        (None, st1) \<Rightarrow> (Inl RuntimeError, st1)
      | (Some resp, st1) \<Rightarrow>
          if \<not> ok resp then (Inl RuntimeError, st1) else (first_bid_price env resp, st1))"

text \<open>The loop of \<^verbatim>\<open>find_best_bid_price\<close> over the price fields of the instrument
  record.\<close>

fun first_price :: "env \<Rightarrow> json \<Rightarrow> string list \<Rightarrow> rat option" where
  "first_price env srec [] = None"
| "first_price env srec (key # keys) =
     (let v = dict_get srec key
      in if v \<noteq> JNull then
           (case py_float env v of
              Inr price \<Rightarrow> if 0 < price then Some price else first_price env srec keys
            | Inl e \<Rightarrow> first_price env srec keys)
         else first_price env srec keys)"

definition find_best_bid_price ::
  "env \<Rightarrow> state \<Rightarrow> string option \<Rightarrow> string \<Rightarrow> (error + rat) \<times> state" where
  "find_best_bid_price env st api_key pair =
     (case get_symbols env st api_key of
        (Inl e, st1) \<Rightarrow> (Inl e, st1)
      | (Inr symbols, st1) \<Rightarrow>
          (case find_symbol_record symbols pair of
             Inl e \<Rightarrow> (Inl e, st1)
           | Inr srec \<Rightarrow>
               (case first_price env srec [''bid'', ''bestBid'', ''last'', ''price''] of
                  Some price \<Rightarrow> (Inr price, st1)
                | None \<Rightarrow> get_public_best_bid env st1 pair)))"

fun first_id :: "env \<Rightarrow> json \<Rightarrow> string list \<Rightarrow> string option" where
  "first_id env d [] = None"
| "first_id env d (key # keys) =
     (if has_key d key \<and> truthy (dict_get d key) then Some (py_str env (dict_get d key))
      else first_id env d keys)"

definition id_keys :: "string list" where
  "id_keys = [''orderID'', ''orderId'', ''id'', ''clientOrderId'', ''dataId'']"

definition extract_order_id :: "env \<Rightarrow> json \<Rightarrow> string option" where
  "extract_order_id env resp_json =
     (if \<not> is_dict resp_json then None
      else case first_id env resp_json id_keys of
             Some s \<Rightarrow> Some s
           | None \<Rightarrow>
               (let res = dict_get resp_json ''result''
                in if is_dict res then first_id env res id_keys else None))"

text \<open>Lines 225 to 231 of \<^verbatim>\<open>place_order\<close>: the price and the quantity that go into the
  request. A negative precision makes the format raise, a zero lot size the division.\<close>

definition normalise :: "env \<Rightarrow> json \<Rightarrow> rat \<Rightarrow> rat \<Rightarrow> error + rat \<times> rat" where
  "normalise env srec price quantity =
     and_then (py_get_default srec ''pricePrecision'' (JNum 8)) (\<lambda>pp.
     and_then (py_int env pp) (\<lambda>price_prec.
     and_then (py_get_default srec ''lotSize'' (JNum (1 / 100000000))) (\<lambda>ls.
     and_then (py_float env ls) (\<lambda>lot_size.
       if price_prec < 0 then Inl ValueError
       else if lot_size = 0 then Inl ZeroDivisionError
       else (let p = fmt_round (nat price_prec) price;
                 steps = py_trunc (quantity / lot_size);
                 q = fmt_round 8 (of_int steps * lot_size)
             in Inr (p, q))))))"

definition raw_text :: "response \<Rightarrow> json" where
  "raw_text resp = JObj [(''raw_text'', JStr (resp_text resp))]"

definition place_order ::
  "env \<Rightarrow> state \<Rightarrow> string \<Rightarrow> string \<Rightarrow> string \<Rightarrow> rat \<Rightarrow> rat \<Rightarrow> json \<Rightarrow> (error + json) \<times> state" where
  "place_order env st api_key symbol side price quantity srec =
     (case normalise env srec price quantity of
        Inl e \<Rightarrow> (Inl e, st)
      | Inr (p, q) \<Rightarrow>
          (case try_request env st
                  (POST ''/api/orders'' (Some api_key)
                     \<lparr>b_symbol = symbol, b_side = lower side, b_type = ''limit'',
                      b_price = p, b_quantity = q\<rparr>) of
             (None, st1) \<Rightarrow> (Inl RuntimeError, st1)
           | (Some resp, st1) \<Rightarrow>
               if denied resp then (Inl PermissionError, st1)
               else if \<not> ok resp then (Inl RuntimeError, st1)
               else (Inr (case resp_body resp of Some j \<Rightarrow> j | None \<Rightarrow> raw_text resp), st1)))"

text \<open>The loop of \<^verbatim>\<open>get_order_status\<close> over the candidate paths.\<close>

fun status_lookup :: "env \<Rightarrow> state \<Rightarrow> string \<Rightarrow> string list \<Rightarrow> (error + json) \<times> state" where
  "status_lookup env st api_key [] = (Inl RuntimeError, st)"
| "status_lookup env st api_key (p # ps) =
     (case try_request env st (GET p (Some api_key)) of
        (None, st1) \<Rightarrow> status_lookup env st1 api_key ps
      | (Some resp, st1) \<Rightarrow>
          if denied resp then (Inl PermissionError, st1)
          else if ok resp then
            (Inr (case resp_body resp of Some j \<Rightarrow> j | None \<Rightarrow> raw_text resp), st1)
          else status_lookup env st1 api_key ps)"

definition get_order_status :: "env \<Rightarrow> state \<Rightarrow> string \<Rightarrow> string \<Rightarrow> (error + json) \<times> state" where
  "get_order_status env st api_key order_id =
     status_lookup env st api_key
       [''/api/orders/'' @ order_id, ''/api/user/orders/'' @ order_id,
        ''/api/orders?id='' @ order_id]"


section \<open>The run\<close>

text \<open>Lines 325 to 331 of \<^verbatim>\<open>run_lab\<close>: three tiers with a third of the funds each, or
  one tier with all of them (and a line printed).\<close>

definition tiers :: "limits \<Rightarrow> rat \<Rightarrow> state \<Rightarrow> (rat list \<times> rat) \<times> state" where
  "tiers lims use_usdt st =
     (if use_usdt / 3 < minNotional lims then (([98 / 100], use_usdt), say INFO st)
      else (([98 / 100, 95 / 100, 92 / 100], use_usdt / 3), st))"

text \<open>Lines 334 to 345: the loop that builds \<^verbatim>\<open>to_place\<close>. A zero price makes the
  division raise.\<close>

fun candidates ::
  "limits \<Rightarrow> rat \<Rightarrow> rat \<Rightarrow> rat list \<Rightarrow> state \<Rightarrow> (error + (rat \<times> rat) list) \<times> state" where
  "candidates lims best_bid per_order_usdt [] st = (Inr [], st)"
| "candidates lims best_bid per_order_usdt (d # ds) st =
     (let price = best_bid * d
      in if price = 0 then (Inl ZeroDivisionError, st)
         else (let qty_raw = per_order_usdt / price
               in if qty_raw < minQty lims \<or> per_order_usdt < minNotional lims
                  then candidates lims best_bid per_order_usdt ds (say SKIP st)
                  else (case candidates lims best_bid per_order_usdt ds st of
                          (Inl e, st1) \<Rightarrow> (Inl e, st1)
                        | (Inr rest, st1) \<Rightarrow> (Inr ((price, qty_raw) # rest), st1))))"

text \<open>Lines 313 to 315.\<close>

definition usable_funds :: "rat \<Rightarrow> rat \<Rightarrow> error + rat" where
  "usable_funds available_usdt usdt_amount =
     (let use_usdt = min available_usdt usdt_amount
      in if use_usdt \<le> 0 then Inl RuntimeError else Inr use_usdt)"

text \<open>Lines 307 to 345: everything before the store is loaded. The result is the
  instrument record and the candidates.\<close>

definition run_lab_plan ::
  "env \<Rightarrow> state \<Rightarrow> string \<Rightarrow> string \<Rightarrow> rat \<Rightarrow> (error + json \<times> (rat \<times> rat) list) \<times> state" where
  "run_lab_plan env st api_key pair usdt_amount =
     (case get_balance env (say INFO st) api_key ''USDT'' of
        (Inl e, st1) \<Rightarrow> (Inl e, st1)
      | (Inr bal_json, st1) \<Rightarrow>
     (case extract_available_usdt env (say INFO st1) bal_json usdt_amount of
        (Inl e, st2) \<Rightarrow> (Inl e, st2)
      | (Inr available_usdt, st2) \<Rightarrow>
     (case usable_funds available_usdt usdt_amount of
        Inl e \<Rightarrow> (Inl e, say INFO st2)
      | Inr use_usdt \<Rightarrow>
     (case get_symbols env (say INFO (say INFO st2)) (Some api_key) of
        (Inl e, st4) \<Rightarrow> (Inl e, st4)
      | (Inr symbols, st4) \<Rightarrow>
     (case find_symbol_record symbols pair of
        Inl e \<Rightarrow> (Inl e, st4)
      | Inr srec \<Rightarrow>
     (case get_symbol_limits env srec of
        Inl e \<Rightarrow> (Inl e, st4)
      | Inr lims \<Rightarrow>
     (case find_best_bid_price env st4 (Some api_key) pair of
        (Inl e, st5) \<Rightarrow> (Inl e, st5)
      | (Inr best_bid, st5) \<Rightarrow>
     (case tiers lims use_usdt (say INFO st5) of
        ((deltas, per_order_usdt), st6) \<Rightarrow>
     (case candidates lims best_bid per_order_usdt deltas st6 of
        (Inl e, st7) \<Rightarrow> (Inl e, st7)
      | (Inr to_place, st7) \<Rightarrow> (Inr (srec, to_place), st7))))))))))"

definition opt_str :: "string option \<Rightarrow> json" where
  "opt_str x = (case x of None \<Rightarrow> JNull | Some s \<Rightarrow> JStr s)"

text \<open>The record of a placed buy, lines 360 to 370.\<close>

definition buy_entry :: "env \<Rightarrow> state \<Rightarrow> string \<Rightarrow> rat \<Rightarrow> rat \<Rightarrow> json \<Rightarrow> json" where
  "buy_entry env st pair price qty resp_json =
     JObj [(''side'', JStr ''buy''),
           (''price'', JNum (fmt_round 10 price)),
           (''quantity'', JNum (fmt_round 10 qty)),
           (''pair'', JStr pair),
           (''order_id'', opt_str (extract_order_id env resp_json)),
           (''status'', JStr ''NEW''),
           (''created_raw_response'', resp_json),
           (''linked_sell_order'', JNull),
           (''created_at'', JNum (of_int (clock env (tick st))))]"

text \<open>\<^verbatim>\<open>saved["orders"].append(entry)\<close>: only a list has \<^verbatim>\<open>append\<close>.\<close>

definition append_order :: "json \<Rightarrow> json \<Rightarrow> error + json" where
  "append_order sv entry =
     and_then (py_getitem sv ''orders'') (\<lambda>os.
       (case os of
          JArr xs \<Rightarrow> py_setitem sv ''orders'' (JArr (xs @ [entry]))
        | _ \<Rightarrow> Inl AttributeError))"

text \<open>Lines 355 to 377: the loop that places the buys. \<^verbatim>\<open>PermissionError\<close> leaves the
  loop and the run; any other exception inside the \<^verbatim>\<open>try\<close> prints a line.\<close>

fun place_buys ::
  "env \<Rightarrow> string \<Rightarrow> string \<Rightarrow> json \<Rightarrow> (rat \<times> rat) list \<Rightarrow> state \<Rightarrow> (error + unit) \<times> state" where
  "place_buys env api_key pair srec [] st = (Inr (), st)"
| "place_buys env api_key pair srec ((price, qty) # rest) st =
     (case place_order env st api_key pair ''buy'' price qty srec of
        (Inl e, st1) \<Rightarrow>
          (if e = PermissionError then (Inl PermissionError, st1)
           else place_buys env api_key pair srec rest (say ERROR st1))
      | (Inr resp_json, st1) \<Rightarrow>
          (case append_order (saved st1) (buy_entry env st1 pair price qty resp_json) of
             Inl e \<Rightarrow> place_buys env api_key pair srec rest (say ERROR st1)
           | Inr sv \<Rightarrow>
               place_buys env api_key pair srec rest
                 (say OK (save_saved (st1\<lparr>saved := sv\<rparr>)))))"

text \<open>The list \<^verbatim>\<open>saved["orders"]\<close> where the source has it as a list, and the same
  dictionary with another list there.\<close>

definition orders_of :: "json \<Rightarrow> json list" where
  "orders_of sv = (case py_getitem sv ''orders'' of Inr (JArr xs) \<Rightarrow> xs | _ \<Rightarrow> [])"

definition set_orders :: "json \<Rightarrow> json list \<Rightarrow> json" where
  "set_orders sv xs = (case py_setitem sv ''orders'' (JArr xs) of Inr sv' \<Rightarrow> sv' | Inl e \<Rightarrow> sv)"

text \<open>\<^verbatim>\<open>d[k] = v\<close> where \<open>d\<close> is known to be a \<^verbatim>\<open>dict\<close>.\<close>

definition dict_set :: "json \<Rightarrow> string \<Rightarrow> json \<Rightarrow> json" where
  "dict_set d k v = (case py_setitem d k v of Inr d' \<Rightarrow> d' | Inl e \<Rightarrow> d)"

text \<open>Lines 394 to 404: status, filled amount and average price out of the status
  response.\<close>

definition read_status :: "json \<Rightarrow> json \<times> json \<times> json" where
  "read_status st_json =
     (if is_dict st_json then
        (let status = py_or (dict_get st_json ''status'') (dict_get st_json ''orderStatus'');
             avg_price = py_or (dict_get st_json ''avgPrice'') (dict_get st_json ''averagePrice'');
             filled_amount =
               py_or (py_or (dict_get st_json ''filledAmount'') (dict_get st_json ''filledQty''))
                 (dict_get st_json ''filled'');
             res = dict_get st_json ''result''
         in if has_key st_json ''result'' \<and> is_dict res then
              (py_or (dict_get res ''status'') status,
               py_or (dict_get res ''filledAmount'') filled_amount,
               py_or (dict_get res ''avgPrice'') avg_price)
            else (status, filled_amount, avg_price))
      else (JNull, JNull, JNull))"

text \<open>The comparison inside the inner \<^verbatim>\<open>try\<close> of lines 412 to 418.\<close>

definition filled_enough :: "env \<Rightarrow> json \<Rightarrow> json \<Rightarrow> error + bool" where
  "filled_enough env entry filled_amount =
     (if filled_amount \<noteq> JNull then
        and_then (py_float env filled_amount) (\<lambda>f.
        and_then (py_getitem entry ''quantity'') (\<lambda>qv.
        and_then (py_float env qv) (\<lambda>q. Inr (q - 1 / 10 ^ 9 \<le> f))))
      else Inr False)"

text \<open>Lines 406 to 418: the status the record gets. \<^verbatim>\<open>lower\<close> exists on a string
  only.\<close>

definition new_status :: "env \<Rightarrow> json \<Rightarrow> json \<Rightarrow> json \<Rightarrow> error + string" where
  "new_status env entry status filled_amount =
     (case py_or status (JStr []) of
        JStr s \<Rightarrow>
          (let norm = lower s
           in if norm \<in> set [''filled'', ''done'', ''closed'', ''executed''] then Inr ''FILLED''
              else if norm \<in> set [''new'', ''open'', ''partially_filled'', ''partiallyfilled'']
              then Inr (upper norm)
              else (case filled_enough env entry filled_amount of
                      Inl e \<Rightarrow> Inr ''NEW''
                    | Inr b \<Rightarrow> if b then Inr ''FILLED'' else Inr ''NEW''))
      | _ \<Rightarrow> Inl AttributeError)"

text \<open>The record of a generated sell, lines 435 to 445.\<close>

definition sell_entry :: "env \<Rightarrow> state \<Rightarrow> string \<Rightarrow> rat \<Rightarrow> rat \<Rightarrow> json \<Rightarrow> json \<Rightarrow> json" where
  "sell_entry env st pair sell_price sell_qty sell_resp buy_id =
     JObj [(''side'', JStr ''sell''),
           (''price'', JNum (fmt_round 10 sell_price)),
           (''quantity'', JNum (fmt_round 10 sell_qty)),
           (''pair'', JStr pair),
           (''order_id'', opt_str (extract_order_id env sell_resp)),
           (''status'', JStr ''NEW''),
           (''created_raw_response'', sell_resp),
           (''linked_buy_order'', buy_id),
           (''created_at'', JNum (of_int (clock env (tick st))))]"

text \<open>Lines 427 to 452: the sell for a filled buy. The inner \<^verbatim>\<open>try\<close> catches every
  exception of the placement, \<^verbatim>\<open>PermissionError\<close> too; the two \<^verbatim>\<open>float\<close> calls before
  it are outside.\<close>

definition make_sell ::
  "env \<Rightarrow> string \<Rightarrow> string \<Rightarrow> json \<Rightarrow> nat \<Rightarrow> json \<Rightarrow> json \<Rightarrow> state \<Rightarrow> (error + unit) \<times> state" where
  "make_sell env api_key pair srec idx entry avg_price st =
     (case (if truthy avg_price then py_float env avg_price
            else and_then (py_getitem entry ''price'') (py_float env)) of
        Inl e \<Rightarrow> (Inl e, st)
      | Inr bought_price \<Rightarrow>
          (case and_then (py_getitem entry ''quantity'') (py_float env) of
             Inl e \<Rightarrow> (Inl e, st)
           | Inr sell_qty \<Rightarrow>
               (let sell_price = bought_price * (102 / 100)
                in case place_order env st api_key pair ''sell'' sell_price sell_qty srec of
                     (Inl e, st1) \<Rightarrow> (Inr (), say ERROR st1)
                   | (Inr sell_resp, st1) \<Rightarrow>
                       (let se = sell_entry env st1 pair sell_price sell_qty sell_resp
                                   (dict_get entry ''order_id'');
                            entry1 = dict_set entry ''linked_sell_order'' (dict_get se ''order_id'');
                            sv = set_orders (saved st1)
                                   ((orders_of (saved st1) @ [se])[idx := entry1])
                        in (Inr (), say OK (save_saved (st1\<lparr>saved := sv\<rparr>)))))))"

text \<open>Lines 393 to 452: the body of the outer \<^verbatim>\<open>try\<close> for one record.\<close>

definition check_order ::
  "env \<Rightarrow> string \<Rightarrow> string \<Rightarrow> json \<Rightarrow> nat \<Rightarrow> json \<Rightarrow> json \<Rightarrow> state \<Rightarrow> (error + unit) \<times> state" where
  "check_order env api_key pair srec idx entry oid st =
     (case get_order_status env st api_key (py_str env oid) of
        (Inl e, st1) \<Rightarrow> (Inl e, st1)
      | (Inr st_json, st1) \<Rightarrow>
          (case read_status st_json of
             (status, filled_amount, avg_price) \<Rightarrow>
               (case new_status env entry status filled_amount of
                  Inl e \<Rightarrow> (Inl e, st1)
                | Inr s \<Rightarrow>
                    (let entry1 = dict_set (dict_set entry ''status'' (JStr s))
                                    ''status_raw_response'' st_json;
                         sv = set_orders (saved st1) ((orders_of (saved st1))[idx := entry1]);
                         st2 = say INFO (save_saved (st1\<lparr>saved := sv\<rparr>))
                     in if s = ''FILLED'' \<and> \<not> truthy (dict_get entry1 ''linked_sell_order'')
                        then make_sell env api_key pair srec idx entry1 avg_price st2
                        else (Inr (), st2)))))"

text \<open>Lines 384 to 457: one turn of the loop over \<^verbatim>\<open>saved["orders"]\<close>.\<close>

definition check_entry ::
  "env \<Rightarrow> string \<Rightarrow> string \<Rightarrow> json \<Rightarrow> nat \<Rightarrow> state \<Rightarrow> (error + unit) \<times> state" where
  "check_entry env api_key pair srec idx st =
     (let entry = orders_of (saved st) ! idx
      in case py_getitem entry ''side'' of
           Inl e \<Rightarrow> (Inl e, st)
         | Inr side \<Rightarrow>
             if side \<noteq> JStr ''buy'' then (Inr (), st)
             else if dict_get entry ''status'' \<in> set [JStr ''FILLED'', JStr ''CLOSED'']
             then (Inr (), st)
             else (let oid = dict_get entry ''order_id''
                   in if \<not> truthy oid then (Inr (), say WARN st)
                      else (case check_order env api_key pair srec idx entry oid st of
                              (Inl e, st1) \<Rightarrow>
                                if e = PermissionError then (Inl PermissionError, st1)
                                else (Inr (), say ERROR st1)
                            | (Inr u, st1) \<Rightarrow> (Inr (), st1))))"

definition is_buy :: "json \<Rightarrow> bool" where
  "is_buy entry = (py_getitem entry ''side'' = Inr (JStr ''buy''))"

text \<open>What is left of the loop at index \<open>idx\<close>: the records not yet visited, and one
  more for each buy among them, since visiting a buy can append one sell.\<close>

definition pending :: "nat \<Rightarrow> json list \<Rightarrow> nat" where
  "pending idx xs = (length xs - idx) + length (filter is_buy (drop idx xs))"


lemma say_simps [simp]:
  "saved (say l st) = saved st" "disk (say l st) = disk st" "sent (say l st) = sent st"
  "tick (say l st) = tick st" "out (say l st) = out st @ [l]"
  by (simp_all add: say_def tick_def)

lemma save_saved_simps [simp]:
  "saved (save_saved st) = saved st" "disk (save_saved st) = Document (saved st)"
  "sent (save_saved st) = sent st" "tick (save_saved st) = tick st"
  "out (save_saved st) = out st"
  by (simp_all add: save_saved_def tick_def)

lemma and_then_simps [simp]:
  "and_then (Inl e) f = Inl e" "and_then (Inr x) f = f x"
  by (simp_all add: and_then_def)

lemma try_request_state [simp]:
  "saved (snd (try_request env st req)) = saved st"
  "disk (snd (try_request env st req)) = disk st"
  "out (snd (try_request env st req)) = out st"
  "sent (snd (try_request env st req)) = sent st @ [req]"
  "tick (snd (try_request env st req)) = Suc (tick st)"
  by (simp_all add: try_request_def tick_def)

lemma place_order_state [simp]:
  "saved (snd (place_order env st api_key symbol side price quantity srec)) = saved st"
  "disk (snd (place_order env st api_key symbol side price quantity srec)) = disk st"
  "out (snd (place_order env st api_key symbol side price quantity srec)) = out st"
  by (auto simp: place_order_def try_request_def split: sum.splits prod.splits option.splits)

lemma status_lookup_state [simp]:
  "saved (snd (status_lookup env st api_key ps)) = saved st"
  "disk (snd (status_lookup env st api_key ps)) = disk st"
  "out (snd (status_lookup env st api_key ps)) = out st"
  by (induction ps arbitrary: st; auto simp: try_request_def split: option.splits)+

lemma get_order_status_state [simp]:
  "saved (snd (get_order_status env st api_key oid)) = saved st"
  "disk (snd (get_order_status env st api_key oid)) = disk st"
  "out (snd (get_order_status env st api_key oid)) = out st"
  unfolding get_order_status_def by (rule status_lookup_state)+

lemma orders_of_set_orders:
  "is_dict sv \<Longrightarrow> orders_of (set_orders sv xs) = xs"
  by (cases sv) (simp_all add: orders_of_def set_orders_def update_conv')

lemma is_dict_set_orders [simp]: "is_dict (set_orders sv xs) = is_dict sv"
  by (cases sv) (simp_all add: set_orders_def)

lemma orders_of_nonempty_dict: "idx < length (orders_of sv) \<Longrightarrow> is_dict sv"
  by (cases sv) (simp_all add: orders_of_def)

definition grows :: "nat \<Rightarrow> json list \<Rightarrow> json list \<Rightarrow> bool" where
  "grows idx xs ys =
     ((\<exists>e. ys = xs[idx := e]) \<or>
      (\<exists>e se. is_buy (xs ! idx) \<and> \<not> is_buy se \<and> ys = (xs @ [se])[idx := e]))"

lemma grows_refl: "grows idx xs xs"
  unfolding grows_def by (metis list_update_id)

lemma pending_grows:
  assumes "idx < length xs" "grows idx xs ys"
  shows "pending (Suc idx) ys < pending idx xs"
proof -
  have d: "drop idx xs = xs ! idx # drop (Suc idx) xs"
    using assms(1) by (simp add: Cons_nth_drop_Suc)
  from assms(2) consider (upd) e where "ys = xs[idx := e]"
    | (app) e se where "is_buy (xs ! idx)" "\<not> is_buy se" "ys = (xs @ [se])[idx := e]"
    unfolding grows_def by blast
  then show ?thesis
  proof cases
    case upd
    then show ?thesis using assms(1) by (auto simp: pending_def d)
  next
    case app
    then show ?thesis using assms(1) by (auto simp: pending_def d)
  qed
qed


lemma grows_after_update:
  assumes "idx < length xs" "is_buy (xs ! idx)" "grows idx (xs[idx := e]) ys"
  shows "grows idx xs ys"
proof -
  from assms(3) consider (upd) e' where "ys = (xs[idx := e])[idx := e']"
    | (app) e' se where "\<not> is_buy se" "ys = (xs[idx := e] @ [se])[idx := e']"
    unfolding grows_def by blast
  then show ?thesis
  proof cases
    case upd
    then show ?thesis unfolding grows_def by auto
  next
    case app
    then have "ys = (xs @ [se])[idx := e']"
      using assms(1) by (simp add: list_update_append1)
    then show ?thesis unfolding grows_def using assms(2) app(1) by blast
  qed
qed

lemma is_buy_dict_set: "k \<noteq> ''side'' \<Longrightarrow> is_buy (dict_set e k v) = is_buy e"
  by (cases e) (simp_all add: is_buy_def dict_set_def update_conv')

lemma is_buy_sell_entry [simp]: "\<not> is_buy (sell_entry env st pair p q r b)"
  by (simp add: is_buy_def sell_entry_def)

lemma grows_append:
  "is_buy (xs ! idx) \<Longrightarrow> \<not> is_buy se \<Longrightarrow> grows idx xs ((xs @ [se])[idx := e])"
  unfolding grows_def by blast

lemma make_sell_grows:
  assumes "is_dict (saved st)" "is_buy (orders_of (saved st) ! idx)"
  shows "grows idx (orders_of (saved st))
           (orders_of (saved (snd (make_sell env api_key pair srec idx entry avg_price st))))"
proof -
  define bp where "bp = (if truthy avg_price then py_float env avg_price
                         else and_then (py_getitem entry ''price'') (py_float env))"
  show ?thesis
  proof (cases bp)
    case (Inl e)
    then show ?thesis
      unfolding make_sell_def bp_def [symmetric] by (simp add: grows_refl)
  next
    case bought: (Inr bought_price)
    show ?thesis
    proof (cases "and_then (py_getitem entry ''quantity'') (py_float env)")
      case (Inl e)
      then show ?thesis
        unfolding make_sell_def bp_def [symmetric] using bought by (simp add: grows_refl)
    next
      case qty: (Inr sell_qty)
      obtain r st1 where
        p: "place_order env st api_key pair ''sell'' (bought_price * (102 / 100)) sell_qty srec
              = (r, st1)"
        by (cases "place_order env st api_key pair ''sell'' (bought_price * (102 / 100)) sell_qty srec")
      have sv: "saved st1 = saved st"
        using p by (metis place_order_state(1) snd_conv)
      show ?thesis
      proof (cases r)
        case (Inl e)
        then show ?thesis
          unfolding make_sell_def bp_def [symmetric] using bought qty p sv
          by (simp add: grows_refl)
      next
        case (Inr sell_resp)
        then show ?thesis
          unfolding make_sell_def bp_def [symmetric] using bought qty p sv assms
          by (simp add: Let_def orders_of_set_orders grows_append)
      qed
    qed
  qed
qed

lemma grows_length: "grows idx xs ys \<Longrightarrow> length xs \<le> length ys"
  unfolding grows_def by auto

lemma check_order_grows:
  assumes "idx < length (orders_of (saved st))" "is_buy (orders_of (saved st) ! idx)"
    "entry = orders_of (saved st) ! idx"
  shows "grows idx (orders_of (saved st))
           (orders_of (saved (snd (check_order env api_key pair srec idx entry oid st))))"
proof -
  have dict: "is_dict (saved st)"
    using assms(1) by (rule orders_of_nonempty_dict)
  obtain r st1 where g: "get_order_status env st api_key (py_str env oid) = (r, st1)"
    by (cases "get_order_status env st api_key (py_str env oid)")
  have sv1: "saved st1 = saved st"
    using get_order_status_state(1) [of env st api_key "py_str env oid"] g by simp
  show ?thesis
  proof (cases r)
    case (Inl e)
    then show ?thesis using g sv1 by (simp add: check_order_def grows_refl)
  next
    case (Inr st_json)
    obtain status filled_amount avg_price
      where rs: "read_status st_json = (status, filled_amount, avg_price)"
      by (cases "read_status st_json")
    show ?thesis
    proof (cases "new_status env entry status filled_amount")
      case (Inl e)
      then show ?thesis using g sv1 Inr rs by (simp add: check_order_def grows_refl)
    next
      case ns: (Inr s)
      define entry1 where
        "entry1 = dict_set (dict_set entry ''status'' (JStr s)) ''status_raw_response'' st_json"
      define st2 where
        "st2 = say INFO (save_saved (st1\<lparr>saved := set_orders (saved st1)
                 ((orders_of (saved st1))[idx := entry1])\<rparr>))"
      have o2: "orders_of (saved st2) = (orders_of (saved st))[idx := entry1]"
        using dict sv1 by (simp add: st2_def orders_of_set_orders)
      have d2: "is_dict (saved st2)"
        using dict sv1 by (simp add: st2_def)
      have b1: "is_buy entry1"
        using assms(2,3) by (simp add: entry1_def is_buy_dict_set)
      have b2: "is_buy (orders_of (saved st2) ! idx)"
        using o2 b1 assms(1) by simp
      have upd: "grows idx (orders_of (saved st)) (orders_of (saved st2))"
        unfolding o2 grows_def by blast
      have sell: "grows idx (orders_of (saved st))
                    (orders_of (saved (snd (make_sell env api_key pair srec idx entry1 avg_price st2))))"
        using make_sell_grows [OF d2 b2, of env api_key pair srec entry1 avg_price]
        unfolding o2 using grows_after_update [OF assms(1,2)] by blast
      show ?thesis
        using g Inr rs ns upd sell
        by (simp add: check_order_def Let_def entry1_def [symmetric] st2_def [symmetric])
    qed
  qed
qed

lemma check_entry_grows:
  assumes "idx < length (orders_of (saved st))"
  shows "grows idx (orders_of (saved st))
           (orders_of (saved (snd (check_entry env api_key pair srec idx st))))"
proof (cases "is_buy (orders_of (saved st) ! idx)")
  case False
  then show ?thesis
    by (auto simp: check_entry_def Let_def is_buy_def grows_refl split: sum.splits)
next
  case True
  then have side: "py_getitem (orders_of (saved st) ! idx) ''side'' = Inr (JStr ''buy'')"
    by (simp add: is_buy_def)
  define oid where "oid = dict_get (orders_of (saved st) ! idx) ''order_id''"
  obtain r st1 where
    c: "check_order env api_key pair srec idx (orders_of (saved st) ! idx) oid st = (r, st1)"
    by (cases "check_order env api_key pair srec idx (orders_of (saved st) ! idx) oid st")
  have "grows idx (orders_of (saved st)) (orders_of (saved st1))"
    using check_order_grows [OF assms True refl, of env api_key pair srec oid] c by simp
  then show ?thesis
    using c
    by (auto simp: check_entry_def Let_def side grows_refl oid_def [symmetric] split: sum.splits)
qed


lemma check_entry_decreases:
  assumes "idx < length (orders_of (saved st))"
    "check_entry env api_key pair srec idx st = (r, st1)"
  shows "pending (Suc idx) (orders_of (saved st1)) < pending idx (orders_of (saved st))"
proof -
  have "grows idx (orders_of (saved st)) (orders_of (saved st1))"
    using check_entry_grows [OF assms(1), of env api_key pair srec] assms(2) by simp
  with assms(1) show ?thesis by (rule pending_grows)
qed

text \<open>The loop of lines 383 to 457. Python's list iterator reads the live list, so the
  sells appended on the way are visited too.\<close>

function status_loop ::
  "env \<Rightarrow> string \<Rightarrow> string \<Rightarrow> json \<Rightarrow> nat \<Rightarrow> state \<Rightarrow> (error + unit) \<times> state" where
  "status_loop env api_key pair srec idx st =
     (if idx < length (orders_of (saved st)) then
        (case check_entry env api_key pair srec idx st of
           (Inl e, st1) \<Rightarrow> (Inl e, st1)
         | (Inr u, st1) \<Rightarrow> status_loop env api_key pair srec (Suc idx) st1)
      else (Inr (), st))"
  by pat_completeness auto
termination
  by (relation "measure (\<lambda>(env, api_key, pair, srec, idx, st). pending idx (orders_of (saved st)))")
     (auto dest: check_entry_decreases [OF _ sym])



text \<open>Lines 383 to 457 with the evaluation of \<^verbatim>\<open>saved["orders"]\<close> in front: a string or
  a dict is iterable too, and its first item, a string, makes \<^verbatim>\<open>entry["side"]\<close> raise.\<close>

definition check_statuses ::
  "env \<Rightarrow> string \<Rightarrow> string \<Rightarrow> json \<Rightarrow> state \<Rightarrow> (error + unit) \<times> state" where
  "check_statuses env api_key pair srec st =
     (case py_getitem (saved st) ''orders'' of
        Inl e \<Rightarrow> (Inl e, st)
      | Inr os \<Rightarrow>
          (case os of
             JArr xs \<Rightarrow> status_loop env api_key pair srec 0 st
           | JStr s \<Rightarrow> if s = [] then (Inr (), st) else (Inl TypeError, st)
           | JObj kvs \<Rightarrow> if kvs = [] then (Inr (), st) else (Inl TypeError, st)
           | _ \<Rightarrow> (Inl TypeError, st)))"

text \<open>Lines 347 to 349: the store as the loops use it.\<close>

definition open_store :: "state \<Rightarrow> (error + json) \<times> state" where
  "open_store st =
     (case load_saved st of
        (sv0, st1) \<Rightarrow>
          (case py_in ''orders'' sv0 of
             Inl e \<Rightarrow> (Inl e, st1)
           | Inr present \<Rightarrow>
               (if present then Inr sv0 else py_setitem sv0 ''orders'' (JArr []), st1)))"

text \<open>Lines 347 to 460: from loading the store to the end.\<close>

definition run_lab_trade ::
  "env \<Rightarrow> state \<Rightarrow> string \<Rightarrow> string \<Rightarrow> json \<Rightarrow> (rat \<times> rat) list \<Rightarrow> (error + json) \<times> state" where
  "run_lab_trade env st api_key pair srec to_place =
     (case open_store st of
        (Inl e, st1) \<Rightarrow> (Inl e, st1)
      | (Inr sv, st1) \<Rightarrow>
     (case place_buys env api_key pair srec to_place (say INFO (st1\<lparr>saved := sv\<rparr>)) of
        (Inl e, st2) \<Rightarrow> (Inl e, st2)
      | (Inr u, st2) \<Rightarrow>
     (case check_statuses env api_key pair srec (say INFO (say INFO st2)) of
        (Inl e, st3) \<Rightarrow> (Inl e, st3)
      | (Inr u, st3) \<Rightarrow> (Inr (saved st3), say DONE st3))))"

definition run_lab ::
  "env \<Rightarrow> state \<Rightarrow> string \<Rightarrow> string \<Rightarrow> rat \<Rightarrow> (error + json) \<times> state" where
  "run_lab env st api_key pair usdt_amount =
     (case run_lab_plan env st api_key pair usdt_amount of
        (Inl e, st1) \<Rightarrow> (Inl e, st1)
      | (Inr (srec, to_place), st1) \<Rightarrow> run_lab_trade env st1 api_key pair srec to_place)"

text \<open>A process starts with nothing in memory, nothing sent and nothing printed; the
  file is what the previous run left.\<close>

definition start :: "file_state \<Rightarrow> state" where
  "start d = \<lparr>saved = JNull, disk = d, sent = [], out = []\<rparr>"

text \<open>The sizing steps of \<^verbatim>\<open>run_lab\<close> (lines 313 to 345) in the order they run,
  without the requests made between them.\<close>

definition plan_orders ::
  "rat \<Rightarrow> rat \<Rightarrow> limits \<Rightarrow> rat \<Rightarrow> state \<Rightarrow> (error + (rat \<times> rat) list) \<times> state" where
  "plan_orders available_usdt usdt_amount lims best_bid st =
     (case usable_funds available_usdt usdt_amount of
        Inl e \<Rightarrow> (Inl e, st)
      | Inr use_usdt \<Rightarrow>
          (case tiers lims use_usdt st of
             ((deltas, per_order_usdt), st1) \<Rightarrow>
               candidates lims best_bid per_order_usdt deltas st1))"

text \<open>A tier at discount \<open>d\<close> of reference price \<open>P\<close> with the given funds: its price
  and its raw quantity.\<close>

definition tier :: "rat \<Rightarrow> rat \<Rightarrow> rat \<Rightarrow> rat \<times> rat" where
  "tier P funds d = (P * d, funds / (P * d))"

text \<open>The tier is too small for the instrument.\<close>

definition skipped :: "limits \<Rightarrow> rat \<Rightarrow> rat \<Rightarrow> rat \<Rightarrow> bool" where
  "skipped lims P funds d = (funds / (P * d) < minQty lims \<or> funds < minNotional lims)"

text \<open>The status words the pass recognises, after lower-casing.\<close>

definition vocabulary :: "string list" where
  "vocabulary = [''filled'', ''done'', ''closed'', ''executed'',
                 ''new'', ''open'', ''partially_filled'', ''partiallyfilled'']"

text \<open>The reported status is no usable word: nothing truthy, or a string outside the
  vocabulary.\<close>

definition unrecognised :: "json \<Rightarrow> bool" where
  "unrecognised status =
     (case py_or status (JStr []) of JStr s \<Rightarrow> lower s \<notin> set vocabulary | _ \<Rightarrow> False)"

text \<open>The filled amount does not show a fill: absent, not a number, or a number below
  the record's quantity minus \<open>10\<^sup>-\<^sup>9\<close> (or the record's quantity is itself unreadable).\<close>

definition not_filled :: "env \<Rightarrow> json \<Rightarrow> json \<Rightarrow> bool" where
  "not_filled env entry filled_amount =
     (case filled_amount of
        JNull \<Rightarrow> True
      | _ \<Rightarrow>
        (case py_float env filled_amount of
           Inl e \<Rightarrow> True
         | Inr f \<Rightarrow>
            (case and_then (py_getitem entry ''quantity'') (py_float env) of
               Inl e \<Rightarrow> True
             | Inr q \<Rightarrow> f < q - 1 / 10 ^ 9)))"

text \<open>A record with a truthy order id.\<close>

definition scenario_buy :: "string \<Rightarrow> json" where
  "scenario_buy status =
     JObj [(''side'', JStr ''buy''), (''price'', JNum 1), (''quantity'', JNum 100),
           (''pair'', JStr ''TRX/USDT''), (''order_id'', JStr ''42''),
           (''status'', JStr status), (''created_raw_response'', JObj []),
           (''linked_sell_order'', JNull), (''created_at'', JNum 0)]"

definition scenario_state :: "json list \<Rightarrow> state" where
  "scenario_state records =
     \<lparr>saved = JObj [(''orders'', JArr records)],
      disk = Document (JObj [(''orders'', JArr records)]), sent = [], out = []\<rparr>"

text \<open>An exchange that answers every request with status 200 and the given body.\<close>

definition scenario_env :: "json \<Rightarrow> env" where
  "scenario_env answer =
     \<lparr>net = (\<lambda>n req. Some \<lparr>status_code = 200, resp_text = [], resp_body = Some answer\<rparr>),
      parse_float = (\<lambda>s. if s = ''1.05'' then Some (105 / 100) else None),
      parse_int = (\<lambda>s. None),
      str_of = (\<lambda>j. ''?''),
      clock = (\<lambda>n. 0)\<rparr>"

text \<open>An instrument with lot size 1 and a minimum quantity of one and a half.\<close>

definition coarse_lot :: json where
  "coarse_lot = JObj [(''symbol'', JStr ''TRX/USDT''), (''lotSize'', JNum 1),
                      (''minQty'', JNum (3 / 2))]"

text \<open>The value of a price field when it is a strictly positive number.\<close>

definition priced :: "env \<Rightarrow> json \<Rightarrow> string \<Rightarrow> rat option" where
  "priced env srec key =
     (case py_float env (dict_get srec key) of
        Inr p \<Rightarrow> if 0 < p then Some p else None
      | Inl e \<Rightarrow> None)"

text \<open>The price of a bid entry by its shape: the first element of a list, the
  \<open>price\<close> member of a dict, a failure for anything else.\<close>

fun entry_price :: "env \<Rightarrow> json \<Rightarrow> error + rat" where
  "entry_price env (JArr (x # xs)) = py_float env x"
| "entry_price env (JObj kvs) =
     (if has_key (JObj kvs) ''price'' then py_float env (dict_get (JObj kvs) ''price'')
      else Inl RuntimeError)"
| "entry_price env other = Inl RuntimeError"

text \<open>A successful reply with a JSON body.\<close>

definition reply :: "json \<Rightarrow> response option" where
  "reply j = Some \<lparr>status_code = 200, resp_text = [], resp_body = Some j\<rparr>"

text \<open>An exchange given by its answers; \<^verbatim>\<open>float\<close> knows the one string the scenarios
  use.\<close>

definition exchange :: "(nat \<Rightarrow> request \<Rightarrow> response option) \<Rightarrow> env" where
  "exchange answers =
     \<lparr>net = answers,
      parse_float = (\<lambda>s. if s = ''1.05'' then Some (105 / 100) else None),
      parse_int = (\<lambda>s. None),
      str_of = (\<lambda>j. ''?''),
      clock = (\<lambda>n. 0)\<rparr>"

text \<open>An exchange that serves a catalog and an order book.\<close>

definition price_exchange :: "json \<Rightarrow> json \<Rightarrow> env" where
  "price_exchange catalog book =
     exchange (\<lambda>n req. case req of
                 GET path key \<Rightarrow> if path = ''/api/symbols'' then reply catalog else reply book
               | POST path key b \<Rightarrow> None)"

text \<open>A catalog whose record has an unreadable \<open>bid\<close>, a zero \<open>bestBid\<close> and a good
  \<open>last\<close>; one whose record has no price at all; a book with a dict-shaped first bid.\<close>

definition catalog_priced :: json where
  "catalog_priced =
     JObj [(''result'', JArr [JObj [(''symbol'', JStr ''TRX/USDT''), (''bid'', JStr ''abc''),
                                    (''bestBid'', JNum 0), (''last'', JStr ''1.05''),
                                    (''price'', JNum 9)]])]"

definition catalog_bare :: json where
  "catalog_bare = JObj [(''result'', JArr [JObj [(''symbol'', JStr ''TRX/USDT'')]])]"

definition book_dict :: json where
  "book_dict =
     JObj [(''result'', JObj [(''bids'', JArr [JObj [(''price'', JStr ''1.05''),
                                                     (''qty'', JNum 3)]])])]"




text \<open>How many lines with the given tag have been printed.\<close>

definition printed :: "level \<Rightarrow> state \<Rightarrow> nat" where
  "printed l st = length (filter (\<lambda>x. x = l) (out st))"


text \<open>The status response of the scenario: filled at an average price of 1.05.\<close>

definition filled_answer :: json where
  "filled_answer = JObj [(''status'', JStr ''FILLED''), (''avgPrice'', JStr ''1.05''),
                         (''orderID'', JStr ''S1'')]"

text \<open>A record the status pass leaves alone: its status is FILLED or CLOSED.\<close>

definition terminal :: "json \<Rightarrow> bool" where
  "terminal e = (dict_get e ''status'' \<in> set [JStr ''FILLED'', JStr ''CLOSED''])"

text \<open>A record whose \<open>linked_sell_order\<close> is not null.\<close>

definition linked :: "json \<Rightarrow> bool" where
  "linked e = (dict_get e ''linked_sell_order'' \<noteq> JNull)"

text \<open>The records a file holds.\<close>

definition stored :: "file_state \<Rightarrow> json list" where
  "stored d = (case d of Document j \<Rightarrow> orders_of j | _ \<Rightarrow> [])"

text \<open>Every record that has a linked sell is FILLED.\<close>

definition well_linked :: "json list \<Rightarrow> bool" where
  "well_linked xs = list_all (\<lambda>e. linked e \<longrightarrow> dict_get e ''status'' = JStr ''FILLED'') xs"

text \<open>What one turn of the status loop at index \<open>idx\<close> can do to the list of records:
  nothing; or, for a record that is not FILLED or CLOSED, replace it by a record that
  has the same \<open>linked_sell_order\<close> or is now FILLED, and append at most one record
  without a linked sell.\<close>

definition advances :: "nat \<Rightarrow> json list \<Rightarrow> json list \<Rightarrow> bool" where
  "advances idx xs ys =
     (ys = xs \<or>
      (\<not> terminal (xs ! idx) \<and>
       (\<exists>e. (dict_get e ''linked_sell_order'' = dict_get (xs ! idx) ''linked_sell_order''
               \<or> dict_get e ''status'' = JStr ''FILLED'')
          \<and> (ys = xs[idx := e] \<or> (\<exists>se. \<not> linked se \<and> ys = (xs @ [se])[idx := e])))))"

text \<open>Memory and file after a step: both as before, or the file holds what memory
  holds.\<close>

definition synced :: "state \<Rightarrow> state \<Rightarrow> bool" where
  "synced st st' = ((saved st' = saved st \<and> disk st' = disk st) \<or> disk st' = Document (saved st'))"

text \<open>What a run may do to the records \<open>xs\<close> it finds: the list gets no shorter, a
  record that is FILLED or CLOSED stays as it is, a record whose \<open>linked_sell_order\<close>
  has changed is FILLED, and if every linked record was FILLED that is still so.\<close>

definition keeps :: "json list \<Rightarrow> json list \<Rightarrow> bool" where
  "keeps xs ys =
     (length xs \<le> length ys
      \<and> (\<forall>j < length xs. terminal (xs ! j) \<longrightarrow> ys ! j = xs ! j)
      \<and> (\<forall>j < length xs.
            dict_get (ys ! j) ''linked_sell_order'' = dict_get (xs ! j) ''linked_sell_order''
            \<or> dict_get (ys ! j) ''status'' = JStr ''FILLED'')
      \<and> (well_linked xs \<longrightarrow> well_linked ys))"

definition evolves :: "state \<Rightarrow> state \<Rightarrow> bool" where
  "evolves st st' = (synced st st' \<and> keeps (orders_of (saved st)) (orders_of (saved st')))"

text \<open>One invocation of the program: the exchange it meets and its arguments.\<close>

type_synonym run = "env \<times> string \<times> string \<times> rat"

text \<open>The file a run leaves, given the file it finds; and the same for a sequence of
  runs, each starting from the file the one before has left.\<close>

definition disk_after :: "run \<Rightarrow> file_state \<Rightarrow> file_state" where
  "disk_after r d =
     (case r of (env, api_key, pair, usdt_amount) \<Rightarrow>
        disk (snd (run_lab env (start d) api_key pair usdt_amount)))"

fun disk_after_all :: "run list \<Rightarrow> file_state \<Rightarrow> file_state" where
  "disk_after_all [] d = d"
| "disk_after_all (r # rs) d = disk_after_all rs (disk_after r d)"

text \<open>An exchange on which every order is filled at once at 1.05.\<close>

definition filling_exchange :: env where
  "filling_exchange =
     exchange (\<lambda>n req. case req of
                 GET path key \<Rightarrow>
                   if path = ''/api/user/balances/USDT'' then reply (JObj [])
                   else if path = ''/api/symbols'' then reply catalog_priced
                   else reply filled_answer
               | POST path key b \<Rightarrow> reply (JObj [(''orderID'', JStr ''7'')]))"

section \<open>Properties\<close>

text \<open>
  C8. When the store file is absent, or its content cannot be read as JSON, loading
  returns the empty store \<open>{"orders": []}\<close>; no error comes out of \<open>load_saved\<close> (its
  result has no error component), the file is untouched, no request is made, and
  only the unreadable case prints a line.
\<close>

theorem load_saved_absent_or_corrupt:
  "disk st = Absent \<or> disk st = Unparsable \<Longrightarrow>
     fst (load_saved st) = JObj [(''orders'', JArr [])]
     \<and> disk (snd (load_saved st)) = disk st
     \<and> sent (snd (load_saved st)) = sent st
     \<and> out (snd (load_saved st)) = out st @ (if disk st = Unparsable then [ERROR] else [])"
  by (auto simp: load_saved_def empty_store_def say_def)

theorem load_saved_absent_or_corrupt_witness:
  "fst (load_saved \<lparr>saved = JNull, disk = Unparsable, sent = [], out = []\<rparr>)
     = JObj [(''orders'', JArr [])]
   \<and> out (snd (load_saved \<lparr>saved = JNull, disk = Unparsable, sent = [], out = []\<rparr>)) = [ERROR]"
  using load_saved_absent_or_corrupt [of "\<lparr>saved = JNull, disk = Unparsable, sent = [], out = []\<rparr>"]
  by simp

lemma candidates_closed_form:
  assumes "0 < P" "\<forall>d \<in> set ds. 0 < d"
  shows "fst (candidates lims P funds ds st)
           = Inr (map (tier P funds) (filter (\<lambda>d. \<not> skipped lims P funds d) ds))"
  using assms(2)
proof (induction ds arbitrary: st)
  case Nil
  then show ?case by simp
next
  case (Cons d ds)
  have nz: "P * d \<noteq> 0" using assms(1) Cons.prems by simp
  have ih: "\<And>s. fst (candidates lims P funds ds s)
           = Inr (map (tier P funds) (filter (\<lambda>d. \<not> skipped lims P funds d) ds))"
    using Cons by simp
  show ?case
  proof (cases "skipped lims P funds d")
    case True
    then show ?thesis using nz ih by (simp add: skipped_def Let_def)
  next
    case False
    obtain r s1 where c: "candidates lims P funds ds st = (r, s1)"
      by (cases "candidates lims P funds ds st")
    have "r = Inr (map (tier P funds) (filter (\<lambda>d. \<not> skipped lims P funds d) ds))"
      using ih [of st] c by simp
    then show ?thesis using False nz c by (simp add: skipped_def Let_def tier_def)
  qed
qed



lemma run_lab_plan_sizing:
  assumes "run_lab_plan env st api_key pair usdt_amount = (Inr (srec, to_place), st')"
  shows "\<exists>available_usdt lims best_bid s.
           get_symbol_limits env srec = Inr lims
         \<and> fst (plan_orders available_usdt usdt_amount lims best_bid s) = Inr to_place"
proof -
  from assms obtain bal st1 where g: "get_balance env (say INFO st) api_key ''USDT'' = (Inr bal, st1)"
    by (auto simp: run_lab_plan_def split: prod.splits sum.splits)
  from assms g obtain av st2 where
    x: "extract_available_usdt env (say INFO st1) bal usdt_amount = (Inr av, st2)"
    by (auto simp: run_lab_plan_def split: prod.splits sum.splits)
  from assms g x obtain u where u: "usable_funds av usdt_amount = Inr u"
    by (auto simp: run_lab_plan_def split: prod.splits sum.splits)
  from assms g x u obtain sy st4 where
    sy: "get_symbols env (say INFO (say INFO st2)) (Some api_key) = (Inr sy, st4)"
    by (auto simp: run_lab_plan_def split: prod.splits sum.splits)
  from assms g x u sy obtain rec where r: "find_symbol_record sy pair = Inr rec"
    by (auto simp: run_lab_plan_def split: prod.splits sum.splits)
  from assms g x u sy r obtain lims where l: "get_symbol_limits env rec = Inr lims"
    by (auto simp: run_lab_plan_def split: prod.splits sum.splits)
  from assms g x u sy r l obtain bb st5 where
    b: "find_best_bid_price env st4 (Some api_key) pair = (Inr bb, st5)"
    by (auto simp: run_lab_plan_def split: prod.splits sum.splits)
  from assms g x u sy r l b have "srec = rec"
    and "fst (plan_orders av usdt_amount lims bb (say INFO st5)) = Inr to_place"
    by (auto simp: run_lab_plan_def plan_orders_def split: prod.splits sum.splits)
  with l show ?thesis by blast
qed

lemma new_status_unrecognised:
  assumes "unrecognised status" "not_filled env entry filled_amount"
  shows "new_status env entry status filled_amount = Inr ''NEW''"
proof -
  have fe: "filled_enough env entry filled_amount \<noteq> Inr True"
    using assms(2)
    by (cases filled_amount)
       (auto simp: filled_enough_def not_filled_def and_then_def split: sum.splits)
  then have tail: "(case filled_enough env entry filled_amount of
                      Inl e \<Rightarrow> Inr ''NEW''
                    | Inr b \<Rightarrow> if b then Inr ''FILLED'' else Inr ''NEW'') = Inr ''NEW''"
    by (cases "filled_enough env entry filled_amount") auto
  from assms(1) obtain s where "py_or status (JStr []) = JStr s" "lower s \<notin> set vocabulary"
    unfolding unrecognised_def by (auto split: json.splits)
  then show ?thesis using tail by (simp add: new_status_def vocabulary_def)
qed

lemma is_buy_dict: "is_buy entry \<Longrightarrow> is_dict entry"
  by (cases entry) (simp_all add: is_buy_def)

lemma dict_get_dict_set:
  "is_dict d \<Longrightarrow> dict_get (dict_set d k v) k' = (if k' = k then v else dict_get d k')"
  by (cases d) (simp_all add: dict_set_def update_conv')

lemma is_dict_dict_set [simp]: "is_dict (dict_set d k v) = is_dict d"
  by (cases d) (simp_all add: dict_set_def)

text \<open>
  C10. A buy record that is not yet FILLED or CLOSED and has an order id, whose status
  lookup succeeds with a status that is no recognised word and a filled amount that is
  absent, unreadable or below the quantity minus \<open>10\<^sup>-\<^sup>9\<close>: the pass sets its status to
  NEW whatever it was before, and places no sell.
\<close>

theorem unrecognised_status_becomes_new:
  assumes "idx < length (orders_of (saved st))"
    and "entry = orders_of (saved st) ! idx"
    and "is_buy entry"
    and "dict_get entry ''status'' \<notin> set [JStr ''FILLED'', JStr ''CLOSED'']"
    and "truthy (dict_get entry ''order_id'')"
    and "get_order_status env st api_key (py_str env (dict_get entry ''order_id''))
           = (Inr st_json, st1)"
    and "read_status st_json = (status, filled_amount, avg_price)"
    and "unrecognised status"
    and "not_filled env entry filled_amount"
  shows "fst (check_entry env api_key pair srec idx st) = Inr ()
       \<and> dict_get (orders_of (saved (snd (check_entry env api_key pair srec idx st))) ! idx)
            ''status'' = JStr ''NEW''
       \<and> sent (snd (check_entry env api_key pair srec idx st)) = sent st1"
proof -
  have side: "py_getitem entry ''side'' = Inr (JStr ''buy'')"
    using assms(3) by (simp add: is_buy_def)
  have dict: "is_dict entry" using assms(3) by (rule is_buy_dict)
  have sv: "is_dict (saved st)" using assms(1) by (rule orders_of_nonempty_dict)
  have sv1: "saved st1 = saved st"
    using assms(6) by (metis get_order_status_state(1) snd_conv)
  have ns: "new_status env entry status filled_amount = Inr ''NEW''"
    using assms(8,9) by (rule new_status_unrecognised)
  define entry1 where
    "entry1 = dict_set (dict_set entry ''status'' (JStr ''NEW'')) ''status_raw_response'' st_json"
  define st2 where
    "st2 = say INFO (save_saved (st1\<lparr>saved := set_orders (saved st1)
              ((orders_of (saved st1))[idx := entry1])\<rparr>))"
  have co: "check_order env api_key pair srec idx entry (dict_get entry ''order_id'') st
              = (Inr (), st2)"
    using assms(6,7) ns
    by (simp add: check_order_def Let_def entry1_def st2_def)
  have ce: "check_entry env api_key pair srec idx st = (Inr (), st2)"
    using assms(2,4,5) side co
    by (simp add: check_entry_def Let_def)
  have o2: "orders_of (saved st2) = (orders_of (saved st))[idx := entry1]"
    using sv sv1 by (simp add: st2_def orders_of_set_orders)
  have "dict_get entry1 ''status'' = JStr ''NEW''"
    using dict by (simp add: entry1_def dict_get_dict_set)
  moreover have "sent st2 = sent st1" by (simp add: st2_def)
  ultimately show ?thesis using ce o2 assms(1) by simp
qed

theorem unrecognised_status_becomes_new_witness:
  "dict_get (orders_of (saved (scenario_state [scenario_buy ''OPEN''])) ! 0) ''status''
     = JStr ''OPEN''
   \<and> dict_get (orders_of (saved (snd (check_entry
          (scenario_env (JObj [(''status'', JStr ''Pending'')])) ''key'' ''TRX/USDT'' (JObj []) 0
          (scenario_state [scenario_buy ''OPEN''])))) ! 0) ''status''
     = JStr ''NEW''"
proof -
  let ?env = "scenario_env (JObj [(''status'', JStr ''Pending'')])"
  let ?st = "scenario_state [scenario_buy ''OPEN'']"
  let ?st1 = "?st\<lparr>sent := [GET ''/api/orders/42'' (Some ''key'')]\<rparr>"
  have h1: "0 < length (orders_of (saved ?st))"
    by (simp add: scenario_state_def orders_of_def)
  have h2: "scenario_buy ''OPEN'' = orders_of (saved ?st) ! 0"
    by (simp add: scenario_state_def orders_of_def)
  have h3: "is_buy (scenario_buy ''OPEN'')"
    by (simp add: scenario_buy_def is_buy_def)
  have h4: "dict_get (scenario_buy ''OPEN'') ''status'' \<notin> set [JStr ''FILLED'', JStr ''CLOSED'']"
    by (simp add: scenario_buy_def)
  have h5: "truthy (dict_get (scenario_buy ''OPEN'') ''order_id'')"
    by (simp add: scenario_buy_def)
  have h6: "get_order_status ?env ?st ''key'' (py_str ?env (dict_get (scenario_buy ''OPEN'') ''order_id''))
              = (Inr (JObj [(''status'', JStr ''Pending'')]), ?st1)"
    by (simp add: scenario_buy_def get_order_status_def try_request_def scenario_env_def
          scenario_state_def tick_def denied_def ok_def)
  have h7: "read_status (JObj [(''status'', JStr ''Pending'')]) = (JStr ''Pending'', JNull, JNull)"
    by (simp add: read_status_def py_or_def)
  have h8: "unrecognised (JStr ''Pending'')"
    by (simp add: unrecognised_def py_or_def vocabulary_def lower_def lower_char_def)
  have h9: "not_filled ?env (scenario_buy ''OPEN'') JNull"
    by (simp add: not_filled_def)
  from unrecognised_status_becomes_new [OF h1 h2 h3 h4 h5 h6 h7 h8 h9, of "''TRX/USDT''" "JObj []"]
  show ?thesis by (simp add: scenario_state_def orders_of_def scenario_buy_def)
qed


lemma round_half_even_of_int [simp]: "round_half_even (of_int k) = k"
  by (simp add: round_half_even_def)





lemma py_trunc_nonneg: "0 \<le> x \<Longrightarrow> py_trunc x = \<lfloor>x\<rfloor>"
  by (simp add: py_trunc_def)

lemma place_order_sent:
  assumes "normalise env srec price quantity = Inr (p, q)"
  shows "sent (snd (place_order env st api_key symbol side price quantity srec))
           = sent st @ [POST ''/api/orders'' (Some api_key)
                          \<lparr>b_symbol = symbol, b_side = lower side, b_type = ''limit'',
                           b_price = p, b_quantity = q\<rparr>]"
  using assms
  by (auto simp: place_order_def try_request_def split: option.splits)





lemma normalise_value:
  assumes "py_get_default srec ''pricePrecision'' (JNum 8) = Inr pp"
    and "py_int env pp = Inr n" and "0 \<le> n"
    and "py_get_default srec ''lotSize'' (JNum (1 / 100000000)) = Inr ls"
    and "py_float env ls = Inr L" and "0 < L" and "0 \<le> q"
  shows "normalise env srec price q
           = Inr (fmt_round (nat n) price, fmt_round 8 (of_int \<lfloor>q / L\<rfloor> * L))"
proof -
  have "0 \<le> q / L" using assms(6,7) by simp
  then have "py_trunc (q / L) = \<lfloor>q / L\<rfloor>" by (rule py_trunc_nonneg)
  then show ?thesis
    using assms(1-6) by (simp add: normalise_def Let_def)
qed

lemma fmt_round_zero [simp]: "fmt_round n 0 = 0"
  by (simp add: fmt_round_def round_half_even_def)

lemma place_buys_single_sent:
  "sent (snd (place_buys env api_key pair srec [(price, qty)] st))
     = sent (snd (place_order env st api_key pair ''buy'' price qty srec))"
proof -
  obtain r st1 where p: "place_order env st api_key pair ''buy'' price qty srec = (r, st1)"
    by (cases "place_order env st api_key pair ''buy'' price qty srec")
  show ?thesis
    using p by (cases r) (auto split: sum.splits)
qed

lemma lower_buy: "lower ''buy'' = ''buy''"
  by code_simp

lemma zero_steps:
  fixes q L :: rat
  assumes "0 \<le> q" "q < L"
  shows "\<lfloor>q / L\<rfloor> = 0"
proof (rule floor_unique)
  have L: "0 < L" using assms by simp
  show "of_int 0 \<le> q / L" using assms L by simp
  show "q / L < of_int 0 + 1" using assms L by simp
qed

text \<open>
  C9. The limits are checked on the raw quantity only. A candidate that passes them
  and whose raw quantity is below the lot size read by \<open>place_order\<close> is still placed,
  and the request carries quantity zero. With lot size 1, \<open>minQty\<close> one and a half and a
  raw quantity of 1.7, the candidate passes and the request carries quantity 1, below
  \<open>minQty\<close>.
\<close>

theorem floor_after_filters:
  "(\<forall>env srec lims pp n ls L P funds d st0 st api_key pair.
      get_symbol_limits env srec = Inr lims
      \<and> py_get_default srec ''pricePrecision'' (JNum 8) = Inr pp
      \<and> py_int env pp = Inr n \<and> 0 \<le> n
      \<and> py_get_default srec ''lotSize'' (JNum (1 / 100000000)) = Inr ls
      \<and> py_float env ls = Inr L
      \<and> 0 < P \<and> 0 < d \<and> 0 \<le> funds
      \<and> \<not> skipped lims P funds d
      \<and> funds / (P * d) < L
      \<longrightarrow> fst (candidates lims P funds [d] st0) = Inr [tier P funds d]
        \<and> (\<exists>p'. sent (snd (place_buys env api_key pair srec [tier P funds d] st))
                   = sent st @ [POST ''/api/orders'' (Some api_key)
                                  \<lparr>b_symbol = pair, b_side = ''buy'', b_type = ''limit'',
                                   b_price = p', b_quantity = 0\<rparr>]))
   \<and> get_symbol_limits (scenario_env JNull) coarse_lot
         = Inr \<lparr>lotSize = 1, minQty = 3 / 2, minNotional = 1 / 2\<rparr>
   \<and> fst (candidates \<lparr>lotSize = 1, minQty = 3 / 2, minNotional = 1 / 2\<rparr> 1 (833 / 500)
            [98 / 100] (start Absent))
         = Inr [(49 / 50, 17 / 10)]
   \<and> sent (snd (place_buys (scenario_env JNull) ''key'' ''TRX/USDT'' coarse_lot
                   [(49 / 50, 17 / 10)] (start Absent)))
         = [POST ''/api/orders'' (Some ''key'')
              \<lparr>b_symbol = ''TRX/USDT'', b_side = ''buy'', b_type = ''limit'',
               b_price = 49 / 50, b_quantity = 1\<rparr>]
   \<and> (1 :: rat) < 3 / 2"
proof -
  have general:
    "fst (candidates lims P funds [d] st0) = Inr [tier P funds d]
     \<and> (\<exists>p'. sent (snd (place_buys env api_key pair srec [tier P funds d] st))
                = sent st @ [POST ''/api/orders'' (Some api_key)
                               \<lparr>b_symbol = pair, b_side = ''buy'', b_type = ''limit'',
                                b_price = p', b_quantity = 0\<rparr>])"
    if pp: "py_get_default srec ''pricePrecision'' (JNum 8) = Inr pp"
      and n: "py_int env pp = Inr n" "0 \<le> n"
      and ls: "py_get_default srec ''lotSize'' (JNum (1 / 100000000)) = Inr ls"
      and L: "py_float env ls = Inr L"
      and pos: "0 < P" "0 < d" "0 \<le> funds"
      and keep: "\<not> skipped lims P funds d"
      and small: "funds / (P * d) < L"
    for env srec lims pp n ls L P funds d st0 st api_key pair
  proof -
    have q0: "0 \<le> funds / (P * d)" using pos by simp
    then have Lpos: "0 < L" using small by simp
    have "\<forall>x \<in> set [d]. 0 < x" using pos(2) by simp
    from candidates_closed_form [OF pos(1) this, of lims funds st0] keep
    have c: "fst (candidates lims P funds [d] st0) = Inr [tier P funds d]" by simp
    have "\<lfloor>funds / (P * d) / L\<rfloor> = 0" using q0 small by (rule zero_steps)
    then have "normalise env srec (P * d) (funds / (P * d)) = Inr (fmt_round (nat n) (P * d), 0)"
      using normalise_value [OF pp n ls L Lpos q0, of "P * d"] by simp
    from place_order_sent [OF this, of st api_key pair "''buy''"]
    have "sent (snd (place_buys env api_key pair srec [tier P funds d] st))
            = sent st @ [POST ''/api/orders'' (Some api_key)
                           \<lparr>b_symbol = pair, b_side = ''buy'', b_type = ''limit'',
                            b_price = fmt_round (nat n) (P * d), b_quantity = 0\<rparr>]"
      by (simp only: tier_def place_buys_single_sent lower_buy)
    with c show ?thesis by blast
  qed
  have lim: "get_symbol_limits (scenario_env JNull) coarse_lot
               = Inr \<lparr>lotSize = 1, minQty = 3 / 2, minNotional = 1 / 2\<rparr>"
    by (simp add: get_symbol_limits_def coarse_lot_def)
  have cand: "fst (candidates \<lparr>lotSize = 1, minQty = 3 / 2, minNotional = 1 / 2\<rparr> 1 (833 / 500)
                     [98 / 100] (start Absent)) = Inr [(49 / 50, 17 / 10)]"
    by (simp add: Let_def)
  have nm: "normalise (scenario_env JNull) coarse_lot (49 / 50) (17 / 10) = Inr (49 / 50, 1)"
    by code_simp
  have snt: "sent (snd (place_buys (scenario_env JNull) ''key'' ''TRX/USDT'' coarse_lot
                   [(49 / 50, 17 / 10)] (start Absent)))
         = [POST ''/api/orders'' (Some ''key'')
              \<lparr>b_symbol = ''TRX/USDT'', b_side = ''buy'', b_type = ''limit'',
               b_price = 49 / 50, b_quantity = 1\<rparr>]"
    using place_order_sent [OF nm, of "start Absent" "''key''" "''TRX/USDT''" "''buy''"]
    by (simp only: place_buys_single_sent lower_buy start_def state.simps append_Nil)
  have lt: "(1 :: rat) < 3 / 2" by simp
  have univ: "\<forall>env srec lims pp n ls L P funds d st0 st api_key pair.
      get_symbol_limits env srec = Inr lims
      \<and> py_get_default srec ''pricePrecision'' (JNum 8) = Inr pp
      \<and> py_int env pp = Inr n \<and> 0 \<le> n
      \<and> py_get_default srec ''lotSize'' (JNum (1 / 100000000)) = Inr ls
      \<and> py_float env ls = Inr L
      \<and> 0 < P \<and> 0 < d \<and> 0 \<le> funds
      \<and> \<not> skipped lims P funds d
      \<and> funds / (P * d) < L
      \<longrightarrow> fst (candidates lims P funds [d] st0) = Inr [tier P funds d]
        \<and> (\<exists>p'. sent (snd (place_buys env api_key pair srec [tier P funds d] st))
                   = sent st @ [POST ''/api/orders'' (Some api_key)
                                  \<lparr>b_symbol = pair, b_side = ''buy'', b_type = ''limit'',
                                   b_price = p', b_quantity = 0\<rparr>])"
    using general by blast
  show ?thesis
    by (rule conjI [OF univ conjI [OF lim conjI [OF cand conjI [OF snt lt]]]])
qed

theorem floor_after_filters_witness:
  "\<not> skipped \<lparr>lotSize = 1, minQty = 1 / 2, minNotional = 1 / 2\<rparr> 1 (343 / 500) (98 / 100)
   \<and> (343 / 500) / (1 * (98 / 100)) < (1 :: rat)
   \<and> fst (candidates \<lparr>lotSize = 1, minQty = 1 / 2, minNotional = 1 / 2\<rparr> 1 (343 / 500)
            [98 / 100] (start Absent))
       = Inr [(49 / 50, 7 / 10)]
   \<and> (\<exists>p'. sent (snd (place_buys (scenario_env JNull) ''key'' ''TRX/USDT''
                         (JObj [(''lotSize'', JNum 1), (''minQty'', JNum (1 / 2))])
                         [(49 / 50, 7 / 10)] (start Absent)))
             = [POST ''/api/orders'' (Some ''key'')
                  \<lparr>b_symbol = ''TRX/USDT'', b_side = ''buy'', b_type = ''limit'',
                   b_price = p', b_quantity = 0\<rparr>])"
proof -
  let ?srec = "JObj [(''lotSize'', JNum 1), (''minQty'', JNum (1 / 2))]"
  let ?lims = "\<lparr>lotSize = 1, minQty = 1 / 2, minNotional = 1 / 2\<rparr>"
  have keep: "\<not> skipped ?lims 1 (343 / 500) (98 / 100)"
    by (simp add: skipped_def)
  have small: "(343 / 500) / (1 * (98 / 100)) < (1 :: rat)"
    by simp
  have h: "get_symbol_limits (scenario_env JNull) ?srec = Inr ?lims
      \<and> py_get_default ?srec ''pricePrecision'' (JNum 8) = Inr (JNum 8)
      \<and> py_int (scenario_env JNull) (JNum 8) = Inr 8 \<and> (0::int) \<le> 8
      \<and> py_get_default ?srec ''lotSize'' (JNum (1 / 100000000)) = Inr (JNum 1)
      \<and> py_float (scenario_env JNull) (JNum 1) = Inr 1
      \<and> (0::rat) < 1 \<and> (0::rat) < 98 / 100 \<and> (0::rat) \<le> 343 / 500
      \<and> \<not> skipped ?lims 1 (343 / 500) (98 / 100)
      \<and> (343 / 500) / (1 * (98 / 100)) < (1 :: rat)"
    using keep by (simp add: get_symbol_limits_def py_trunc_def)
  from floor_after_filters [THEN conjunct1, rule_format, OF h,
         where ?st0.0 = "start Absent" and st = "start Absent" and api_key = "''key''"
           and pair = "''TRX/USDT''"]
  show ?thesis
    using keep by (simp add: tier_def start_def)
qed

lemma first_price_step:
  "first_price env srec (key # keys) =
     (case priced env srec key of Some p \<Rightarrow> Some p | None \<Rightarrow> first_price env srec keys)"
  by (cases "dict_get srec key")
     (auto simp: priced_def Let_def split: sum.splits option.splits)

lemma first_bid_price_shape:
  assumes "resp_body r = Some data"
    and "py_get_default data ''result'' (JObj []) = Inr res"
    and "py_get res ''bids'' = Inr b"
  shows "\<not> truthy b \<Longrightarrow> first_bid_price env r = Inl RuntimeError"
    and "b = JArr (top_bid # rest) \<Longrightarrow> first_bid_price env r = entry_price env top_bid"
proof -
  show "first_bid_price env r = Inl RuntimeError" if "\<not> truthy b"
    using assms that by (simp add: first_bid_price_def decode_json_def py_or_def)
  show "first_bid_price env r = entry_price env top_bid" if "b = JArr (top_bid # rest)"
  proof -
    have bids: "py_or b (JArr []) = JArr (top_bid # rest)"
      using that by (simp add: py_or_def)
    show ?thesis
    proof (cases top_bid)
      case (JArr xs)
      then show ?thesis
        using assms bids by (cases xs) (simp_all add: first_bid_price_def decode_json_def)
    next
      case (JObj kvs)
      then show ?thesis
        using assms bids
        by (force simp: first_bid_price_def decode_json_def map_of_eq_None_iff
                  split: option.splits)
    qed (use assms bids in \<open>simp_all add: first_bid_price_def decode_json_def\<close>)
  qed
qed

text \<open>
  C7. Once the catalog is fetched and the record of the pair found, the reference price
  is the first of \<open>bid\<close>, \<open>bestBid\<close>, \<open>last\<close>, \<open>price\<close>, in that order, whose value is a
  strictly positive number, and no further request is made. If there is none, the public
  order book is asked: when it answers with success, the price is that of the first
  entry of \<open>bids\<close>, read from a list-shaped or a dict-shaped entry; an entry of any other
  shape, and an empty or missing \<open>bids\<close>, is a failure.
\<close>

theorem reference_price_resolution:
  assumes "get_symbols env st api_key = (Inr symbols, st1)"
    and "find_symbol_record symbols pair = Inr srec"
  shows "find_best_bid_price env st api_key pair =
           (case priced env srec ''bid'' of Some p \<Rightarrow> (Inr p, st1) | None \<Rightarrow>
           (case priced env srec ''bestBid'' of Some p \<Rightarrow> (Inr p, st1) | None \<Rightarrow>
           (case priced env srec ''last'' of Some p \<Rightarrow> (Inr p, st1) | None \<Rightarrow>
           (case priced env srec ''price'' of Some p \<Rightarrow> (Inr p, st1) | None \<Rightarrow>
              get_public_best_bid env st1 pair))))
       \<and> (\<forall>r st2 data res b.
             try_request env st1 (GET (''/api/cmc/v1/orderbook/'' @ pair) None) = (Some r, st2)
             \<and> ok r \<and> resp_body r = Some data
             \<and> py_get_default data ''result'' (JObj []) = Inr res
             \<and> py_get res ''bids'' = Inr b
             \<longrightarrow> (\<not> truthy b \<longrightarrow> get_public_best_bid env st1 pair = (Inl RuntimeError, st2))
               \<and> (\<forall>top_bid rest. b = JArr (top_bid # rest) \<longrightarrow>
                     get_public_best_bid env st1 pair = (entry_price env top_bid, st2)))"
proof (rule conjI)
  have "first_price env srec [''bid'', ''bestBid'', ''last'', ''price''] =
          (case priced env srec ''bid'' of Some p \<Rightarrow> Some p | None \<Rightarrow>
          (case priced env srec ''bestBid'' of Some p \<Rightarrow> Some p | None \<Rightarrow>
          (case priced env srec ''last'' of Some p \<Rightarrow> Some p | None \<Rightarrow>
          (case priced env srec ''price'' of Some p \<Rightarrow> Some p | None \<Rightarrow> None))))"
    by (simp only: first_price_step first_price.simps(1))
  then show "find_best_bid_price env st api_key pair =
           (case priced env srec ''bid'' of Some p \<Rightarrow> (Inr p, st1) | None \<Rightarrow>
           (case priced env srec ''bestBid'' of Some p \<Rightarrow> (Inr p, st1) | None \<Rightarrow>
           (case priced env srec ''last'' of Some p \<Rightarrow> (Inr p, st1) | None \<Rightarrow>
           (case priced env srec ''price'' of Some p \<Rightarrow> (Inr p, st1) | None \<Rightarrow>
              get_public_best_bid env st1 pair))))"
    using assms by (simp add: find_best_bid_price_def split: option.splits)
next
  show "\<forall>r st2 data res b.
             try_request env st1 (GET (''/api/cmc/v1/orderbook/'' @ pair) None) = (Some r, st2)
             \<and> ok r \<and> resp_body r = Some data
             \<and> py_get_default data ''result'' (JObj []) = Inr res
             \<and> py_get res ''bids'' = Inr b
             \<longrightarrow> (\<not> truthy b \<longrightarrow> get_public_best_bid env st1 pair = (Inl RuntimeError, st2))
               \<and> (\<forall>top_bid rest. b = JArr (top_bid # rest) \<longrightarrow>
                     get_public_best_bid env st1 pair = (entry_price env top_bid, st2))"
  proof (intro allI impI, elim conjE)
    fix r st2 data res b
    assume t: "try_request env st1 (GET (''/api/cmc/v1/orderbook/'' @ pair) None) = (Some r, st2)"
      and k: "ok r" and d: "resp_body r = Some data"
      and g: "py_get_default data ''result'' (JObj []) = Inr res"
      and bb: "py_get res ''bids'' = Inr b"
    have gp: "get_public_best_bid env st1 pair = (first_bid_price env r, st2)"
      using t k by (simp add: get_public_best_bid_def)
    show "(\<not> truthy b \<longrightarrow> get_public_best_bid env st1 pair = (Inl RuntimeError, st2))
        \<and> (\<forall>top_bid rest. b = JArr (top_bid # rest) \<longrightarrow>
              get_public_best_bid env st1 pair = (entry_price env top_bid, st2))"
      using gp first_bid_price_shape [OF d g bb, where env = env] by simp
  qed
qed

theorem reference_price_resolution_witness:
  "fst (find_best_bid_price (price_exchange catalog_priced JNull) (start Absent) (Some ''key'')
          ''TRX/USDT'') = Inr (105 / 100)
   \<and> sent (snd (find_best_bid_price (price_exchange catalog_priced JNull) (start Absent)
                   (Some ''key'') ''TRX/USDT''))
       = [GET ''/api/symbols'' (Some ''key'')]
   \<and> fst (find_best_bid_price (price_exchange catalog_bare book_dict) (start Absent)
            (Some ''key'') ''TRX/USDT'') = Inr (105 / 100)
   \<and> sent (snd (find_best_bid_price (price_exchange catalog_bare book_dict) (start Absent)
                   (Some ''key'') ''TRX/USDT''))
       = [GET ''/api/symbols'' (Some ''key''), GET ''/api/cmc/v1/orderbook/TRX/USDT'' None]"
proof -
  let ?e1 = "price_exchange catalog_priced JNull"
  let ?e2 = "price_exchange catalog_bare book_dict"
  let ?st1 = "(start Absent)\<lparr>sent := [GET ''/api/symbols'' (Some ''key'')]\<rparr>"
  let ?st2 = "(start Absent)\<lparr>sent := [GET ''/api/symbols'' (Some ''key''),
                                        GET ''/api/cmc/v1/orderbook/TRX/USDT'' None]\<rparr>"
  let ?rec1 = "JObj [(''symbol'', JStr ''TRX/USDT''), (''bid'', JStr ''abc''),
                     (''bestBid'', JNum 0), (''last'', JStr ''1.05''), (''price'', JNum 9)]"
  let ?rec2 = "JObj [(''symbol'', JStr ''TRX/USDT'')]"
  let ?top = "JObj [(''price'', JStr ''1.05''), (''qty'', JNum 3)]"
  have a1: "get_symbols ?e1 (start Absent) (Some ''key'') = (Inr catalog_priced, ?st1)"
    by (simp add: get_symbols_def try_request_def price_exchange_def exchange_def reply_def
          ok_def decode_json_def start_def tick_def)
  have a2: "find_symbol_record catalog_priced ''TRX/USDT'' = Inr ?rec1"
    by (simp add: find_symbol_record_def catalog_priced_def)
  have b1: "get_symbols ?e2 (start Absent) (Some ''key'') = (Inr catalog_bare, ?st1)"
    by (simp add: get_symbols_def try_request_def price_exchange_def exchange_def reply_def
          ok_def decode_json_def start_def tick_def)
  have b2: "find_symbol_record catalog_bare ''TRX/USDT'' = Inr ?rec2"
    by (simp add: find_symbol_record_def catalog_bare_def)
  have b3: "try_request ?e2 ?st1 (GET (''/api/cmc/v1/orderbook/'' @ ''TRX/USDT'') None)
                = (Some \<lparr>status_code = 200, resp_text = [], resp_body = Some book_dict\<rparr>, ?st2)
            \<and> ok \<lparr>status_code = 200, resp_text = [], resp_body = Some book_dict\<rparr>
            \<and> resp_body \<lparr>status_code = 200, resp_text = [], resp_body = Some book_dict\<rparr>
                = Some book_dict
            \<and> py_get_default book_dict ''result'' (JObj []) = Inr (JObj [(''bids'', JArr [?top])])
            \<and> py_get (JObj [(''bids'', JArr [?top])]) ''bids'' = Inr (JArr [?top])"
    by (simp add: try_request_def price_exchange_def exchange_def reply_def ok_def start_def
          tick_def book_dict_def py_get_def)
  have c1: "find_best_bid_price ?e1 (start Absent) (Some ''key'') ''TRX/USDT''
              = (Inr (105 / 100), ?st1)"
    using reference_price_resolution [OF a1 a2, THEN conjunct1]
    by (simp add: priced_def price_exchange_def exchange_def)
  have c2: "find_best_bid_price ?e2 (start Absent) (Some ''key'') ''TRX/USDT''
              = (Inr (105 / 100), ?st2)"
    using reference_price_resolution [OF b1 b2, THEN conjunct1]
      reference_price_resolution [OF b1 b2, THEN conjunct2, rule_format, OF b3, THEN conjunct2,
        rule_format, of ?top "[]"]
    by (simp add: priced_def price_exchange_def exchange_def)
  show ?thesis
    unfolding c1 c2 by (simp add: start_def)
qed


lemma read_amount_list [simp]:
  "read_amount env (JArr xs) k = Inr None" "read_amount env (JStr s) k = Inr None"
  by (simp_all add: read_amount_def)





lemma place_order_frame:
  assumes "place_order env st api_key symbol side price quantity srec = (r, st1)"
  shows "saved st1 = saved st" "disk st1 = disk st" "out st1 = out st"
  using assms place_order_state [of env st api_key symbol side price quantity srec]
  by simp_all

lemma py_get_default_not_denied [simp]: "py_get_default j k d \<noteq> Inl PermissionError"
  by (cases j) (simp_all split: option.splits)

lemma py_float_not_denied [simp]: "py_float env v \<noteq> Inl PermissionError"
  by (cases v) (simp_all split: option.splits)

lemma py_int_not_denied [simp]: "py_int env v \<noteq> Inl PermissionError"
  by (cases v) (simp_all split: option.splits)





lemma orders_of_getitem:
  "py_getitem sv ''orders'' = Inr (JArr xs) \<Longrightarrow> orders_of sv = xs"
  by (simp add: orders_of_def)

lemma buy_entry_new [simp]:
  "is_buy (buy_entry env st pair price qty resp_json)"
  "dict_get (buy_entry env st pair price qty resp_json) ''status'' = JStr ''NEW''"
  by (simp_all add: buy_entry_def is_buy_def)

lemma printed_simps [simp]:
  "printed l (say l' st) = (if l' = l then Suc (printed l st) else printed l st)"
  "printed l (save_saved st) = printed l st"
  by (simp_all add: printed_def)







lemma tick_frame:
  "tick (say l st) = tick st" "tick (save_saved st) = tick st"
  "tick (st\<lparr>saved := sv\<rparr>) = tick st"
  by (simp_all add: tick_def)

lemma get_order_status_frame:
  assumes "get_order_status env st api_key oid = (r, st1)"
  shows "saved st1 = saved st" "disk st1 = disk st" "out st1 = out st"
  using assms get_order_status_state [of env st api_key oid] by simp_all






lemma sell_entry_unlinked [simp]: "\<not> linked (sell_entry env st pair p q r b)"
  by (simp add: linked_def sell_entry_def)

lemma make_sell_effect:
  assumes "is_dict (saved st)"
  shows "(saved (snd (make_sell env api_key pair srec idx entry1 avg_price st)) = saved st
          \<and> disk (snd (make_sell env api_key pair srec idx entry1 avg_price st)) = disk st)
       \<or> (disk (snd (make_sell env api_key pair srec idx entry1 avg_price st))
             = Document (saved (snd (make_sell env api_key pair srec idx entry1 avg_price st)))
          \<and> is_dict (saved (snd (make_sell env api_key pair srec idx entry1 avg_price st)))
          \<and> (\<exists>se v. \<not> linked se
                \<and> orders_of (saved (snd (make_sell env api_key pair srec idx entry1 avg_price st)))
                    = (orders_of (saved st) @ [se])
                        [idx := dict_set entry1 ''linked_sell_order'' v]))"
proof -
  define bp where "bp = (if truthy avg_price then py_float env avg_price
                         else and_then (py_getitem entry1 ''price'') (py_float env))"
  show ?thesis
  proof (cases bp)
    case (Inl e)
    then show ?thesis
      unfolding make_sell_def bp_def [symmetric] by simp
  next
    case bought: (Inr bought_price)
    show ?thesis
    proof (cases "and_then (py_getitem entry1 ''quantity'') (py_float env)")
      case (Inl e)
      then show ?thesis
        unfolding make_sell_def bp_def [symmetric] using bought by simp
    next
      case qty: (Inr sell_qty)
      obtain r st1 where
        p: "place_order env st api_key pair ''sell'' (bought_price * (102 / 100)) sell_qty srec
              = (r, st1)"
        by (cases "place_order env st api_key pair ''sell'' (bought_price * (102 / 100)) sell_qty srec")
      note fr = place_order_frame [OF p]
      show ?thesis
      proof (cases r)
        case (Inl e)
        then show ?thesis
          unfolding make_sell_def bp_def [symmetric] using bought qty p fr by simp
      next
        case (Inr sell_resp)
        have "\<exists>se v. \<not> linked se \<and>
                (orders_of (saved st) @
                   [sell_entry env st1 pair (bought_price * (102 / 100)) sell_qty sell_resp
                      (dict_get entry1 ''order_id'')])
                  [idx := dict_set entry1 ''linked_sell_order''
                     (dict_get (sell_entry env st1 pair (bought_price * (102 / 100)) sell_qty
                        sell_resp (dict_get entry1 ''order_id'')) ''order_id'')]
                = (orders_of (saved st) @ [se])[idx := dict_set entry1 ''linked_sell_order'' v]"
          using sell_entry_unlinked by blast
        then show ?thesis
          unfolding make_sell_def bp_def [symmetric] using Inr bought qty p fr assms
          by (simp add: Let_def orders_of_set_orders)
      qed
    qed
  qed
qed

lemma synced_say [simp]: "synced st (say l st)"
  by (simp add: synced_def)

lemma synced_refl [simp]: "synced st st"
  by (simp add: synced_def)

lemma advances_refl [simp]: "advances idx xs xs"
  by (simp add: advances_def)

lemma linked_dict_set: "is_dict e \<Longrightarrow> k \<noteq> ''linked_sell_order'' \<Longrightarrow> linked (dict_set e k v) = linked e"
  by (simp add: linked_def dict_get_dict_set)

lemma check_order_effect:
  assumes "idx < length (orders_of (saved st))" "entry = orders_of (saved st) ! idx"
    "is_dict entry" "\<not> terminal entry"
  shows "advances idx (orders_of (saved st))
           (orders_of (saved (snd (check_order env api_key pair srec idx entry oid st))))
       \<and> synced st (snd (check_order env api_key pair srec idx entry oid st))
       \<and> is_dict (saved (snd (check_order env api_key pair srec idx entry oid st)))"
proof -
  let ?xs = "orders_of (saved st)"
  have dict: "is_dict (saved st)"
    using assms(1) by (rule orders_of_nonempty_dict)
  obtain r st1 where g: "get_order_status env st api_key (py_str env oid) = (r, st1)"
    by (cases "get_order_status env st api_key (py_str env oid)")
  note fr = get_order_status_frame [OF g]
  show ?thesis
  proof (cases r)
    case (Inl e)
    then show ?thesis using g fr dict by (simp add: check_order_def synced_def)
  next
    case (Inr st_json)
    obtain status filled_amount avg_price
      where rs: "read_status st_json = (status, filled_amount, avg_price)"
      by (cases "read_status st_json")
    show ?thesis
    proof (cases "new_status env entry status filled_amount")
      case (Inl e)
      then show ?thesis using g fr Inr rs dict by (simp add: check_order_def synced_def)
    next
      case ns: (Inr s)
      define entry1 where
        "entry1 = dict_set (dict_set entry ''status'' (JStr s)) ''status_raw_response'' st_json"
      define st2 where
        "st2 = say INFO (save_saved (st1\<lparr>saved := set_orders (saved st1)
                 ((orders_of (saved st1))[idx := entry1])\<rparr>))"
      have o2: "orders_of (saved st2) = ?xs[idx := entry1]"
        using dict fr by (simp add: st2_def orders_of_set_orders)
      have d2: "is_dict (saved st2)"
        using dict fr by (simp add: st2_def)
      have k2: "disk st2 = Document (saved st2)"
        by (simp add: st2_def)
      have l1: "dict_get entry1 ''linked_sell_order'' = dict_get entry ''linked_sell_order''"
        using assms(3) by (simp add: entry1_def dict_get_dict_set)
      have s1: "dict_get entry1 ''status'' = JStr s"
        using assms(3) by (simp add: entry1_def dict_get_dict_set)
      have d1: "is_dict entry1" using assms(3) by (simp add: entry1_def)
      have upd: "advances idx ?xs (?xs[idx := entry1])"
        unfolding advances_def using assms(2,4) l1 by blast
      show ?thesis
      proof (cases "s = ''FILLED'' \<and> \<not> truthy (dict_get entry1 ''linked_sell_order'')")
        case False
        then have "check_order env api_key pair srec idx entry oid st = (Inr (), st2)"
          using g Inr rs ns unfolding entry1_def st2_def
          by (auto simp: check_order_def Let_def)
        then show ?thesis using upd o2 d2 k2 by (simp add: synced_def)
      next
        case True
        let ?st' = "snd (make_sell env api_key pair srec idx entry1 avg_price st2)"
        have co: "check_order env api_key pair srec idx entry oid st
                    = make_sell env api_key pair srec idx entry1 avg_price st2"
        proof -
          from True have sF: "s = ''FILLED''"
            and nl: "\<not> truthy (dict_get entry1 ''linked_sell_order'')" by simp_all
          show ?thesis
            using g Inr rs ns nl unfolding entry1_def st2_def sF
            by (simp add: check_order_def Let_def)
        qed
        from make_sell_effect [OF d2, of env api_key pair srec idx entry1 avg_price]
        consider (same) "saved ?st' = saved st2" "disk ?st' = disk st2"
          | (sold) se v where "disk ?st' = Document (saved ?st')" "is_dict (saved ?st')"
              "\<not> linked se"
              "orders_of (saved ?st')
                 = (orders_of (saved st2) @ [se])[idx := dict_set entry1 ''linked_sell_order'' v]"
          by blast
        then show ?thesis
        proof cases
          case same
          then show ?thesis
            unfolding co using upd o2 d2 k2 by (simp add: synced_def)
        next
          case sold
          define e2 where "e2 = dict_set entry1 ''linked_sell_order'' v"
          have ys: "orders_of (saved ?st') = (?xs @ [se])[idx := e2]"
            using sold(4) assms(1) unfolding o2 e2_def by (simp add: list_update_append1)
          have "dict_get e2 ''status'' = JStr ''FILLED''"
            using True s1 d1 by (simp add: e2_def dict_get_dict_set)
          then have "advances idx ?xs (orders_of (saved ?st'))"
            unfolding advances_def ys using assms(2,4) sold(3) by blast
          then show ?thesis
            unfolding co using sold(1,2) by (simp add: synced_def)
        qed
      qed
    qed
  qed
qed

lemma check_entry_effect:
  assumes "idx < length (orders_of (saved st))"
  shows "advances idx (orders_of (saved st))
           (orders_of (saved (snd (check_entry env api_key pair srec idx st))))
       \<and> synced st (snd (check_entry env api_key pair srec idx st))
       \<and> is_dict (saved (snd (check_entry env api_key pair srec idx st)))"
proof -
  define entry where "entry = orders_of (saved st) ! idx"
  have dict: "is_dict (saved st)"
    using assms by (rule orders_of_nonempty_dict)
  show ?thesis
  proof (cases "is_buy entry \<and> \<not> terminal entry \<and> truthy (dict_get entry ''order_id'')")
    case False
    then show ?thesis
      using dict
      by (auto simp: check_entry_def Let_def entry_def [symmetric] is_buy_def terminal_def
               split: sum.splits)
  next
    case True
    then have side: "py_getitem entry ''side'' = Inr (JStr ''buy'')"
      by (simp add: is_buy_def)
    have ed: "is_dict entry" using True by (simp add: is_buy_dict)
    define oid where "oid = dict_get entry ''order_id''"
    obtain r st1 where
      c: "check_order env api_key pair srec idx entry oid st = (r, st1)"
      by (cases "check_order env api_key pair srec idx entry oid st")
    have eff: "advances idx (orders_of (saved st)) (orders_of (saved st1))
               \<and> synced st st1 \<and> is_dict (saved st1)"
      using check_order_effect [OF assms entry_def ed, of env api_key pair srec oid] True c
      by simp
    have "snd (check_entry env api_key pair srec idx st) = st1
          \<or> snd (check_entry env api_key pair srec idx st) = say ERROR st1"
      using True side c
      by (auto simp: check_entry_def Let_def entry_def [symmetric] oid_def [symmetric]
            terminal_def split: sum.splits)
    then show ?thesis
      using eff by (auto simp: synced_def)
  qed
qed

lemma check_entry_skips:
  assumes "terminal (orders_of (saved st) ! idx)"
  shows "snd (check_entry env api_key pair srec idx st) = st"
  using assms
  by (auto simp: check_entry_def Let_def terminal_def split: sum.splits)

lemma keeps_refl [simp]: "keeps xs xs"
  by (simp add: keeps_def)

lemma keeps_trans:
  assumes "keeps xs ys" "keeps ys zs"
  shows "keeps xs zs"
proof -
  have len: "length xs \<le> length zs"
    using assms by (simp add: keeps_def)
  have fr: "zs ! j = xs ! j" if "j < length xs" "terminal (xs ! j)" for j
  proof -
    have "ys ! j = xs ! j" "j < length ys" using assms(1) that by (auto simp: keeps_def)
    then show ?thesis using assms(2) that(2) by (auto simp: keeps_def)
  qed
  have ch: "dict_get (zs ! j) ''linked_sell_order'' = dict_get (xs ! j) ''linked_sell_order''
            \<or> dict_get (zs ! j) ''status'' = JStr ''FILLED''" if "j < length xs" for j
  proof -
    have jy: "j < length ys" using assms(1) that by (auto simp: keeps_def)
    have a: "dict_get (ys ! j) ''linked_sell_order'' = dict_get (xs ! j) ''linked_sell_order''
             \<or> dict_get (ys ! j) ''status'' = JStr ''FILLED''"
      using assms(1) that by (simp add: keeps_def)
    have b: "dict_get (zs ! j) ''linked_sell_order'' = dict_get (ys ! j) ''linked_sell_order''
             \<or> dict_get (zs ! j) ''status'' = JStr ''FILLED''"
      using assms(2) jy by (simp add: keeps_def)
    have c: "terminal (ys ! j) \<longrightarrow> zs ! j = ys ! j"
      using assms(2) jy by (simp add: keeps_def)
    show ?thesis
      using a b c by (auto simp: terminal_def)
  qed
  have wl: "well_linked xs \<longrightarrow> well_linked zs"
    using assms by (simp add: keeps_def)
  show ?thesis
    unfolding keeps_def using len fr ch wl by blast
qed

lemma well_linked_iff:
  "well_linked xs = (\<forall>e \<in> set xs. linked e \<longrightarrow> dict_get e ''status'' = JStr ''FILLED'')"
  by (simp add: well_linked_def list_all_iff)

lemma filled_terminal: "dict_get e ''status'' = JStr ''FILLED'' \<Longrightarrow> terminal e"
  by (simp add: terminal_def)

lemma advances_keeps:
  assumes "idx < length xs" "advances idx xs ys"
  shows "keeps xs ys"
proof (cases "ys = xs")
  case True
  then show ?thesis by simp
next
  case False
  with assms(2) obtain e where nt: "\<not> terminal (xs ! idx)"
    and good: "dict_get e ''linked_sell_order'' = dict_get (xs ! idx) ''linked_sell_order''
               \<or> dict_get e ''status'' = JStr ''FILLED''"
    and shape: "ys = xs[idx := e] \<or> (\<exists>se. \<not> linked se \<and> ys = (xs @ [se])[idx := e])"
    unfolding advances_def by blast
  have len: "length xs \<le> length ys"
    using shape by auto
  have frozen: "\<forall>j < length xs. terminal (xs ! j) \<longrightarrow> ys ! j = xs ! j"
  proof (intro allI impI)
    fix j assume j: "j < length xs" and t: "terminal (xs ! j)"
    then have "j \<noteq> idx" using nt by auto
    then show "ys ! j = xs ! j"
      using shape j by (auto simp: nth_append)
  qed
  have wl: "well_linked ys" if w: "well_linked xs"
  proof -
    have old: "\<forall>x \<in> set xs. linked x \<longrightarrow> dict_get x ''status'' = JStr ''FILLED''"
      using w by (simp add: well_linked_iff)
    have "\<not> linked (xs ! idx)"
      using old assms(1) nt filled_terminal nth_mem by blast
    then have ge: "linked e \<longrightarrow> dict_get e ''status'' = JStr ''FILLED''"
      using good by (auto simp: linked_def)
    have "set ys \<subseteq> insert e (set xs) \<or> (\<exists>se. \<not> linked se \<and> set ys \<subseteq> insert e (insert se (set xs)))"
    proof -
      from shape show ?thesis
      proof
        assume "ys = xs[idx := e]"
        then show ?thesis using set_update_subset_insert [of xs idx e] by simp
      next
        assume "\<exists>se. \<not> linked se \<and> ys = (xs @ [se])[idx := e]"
        then obtain se where "\<not> linked se" "ys = (xs @ [se])[idx := e]" by blast
        then show ?thesis
          using set_update_subset_insert [of "xs @ [se]" idx e] by auto
      qed
    qed
    then show ?thesis
      unfolding well_linked_iff using old ge by blast
  qed
  have changed: "\<forall>j < length xs.
            dict_get (ys ! j) ''linked_sell_order'' = dict_get (xs ! j) ''linked_sell_order''
            \<or> dict_get (ys ! j) ''status'' = JStr ''FILLED''"
  proof (intro allI impI)
    fix j assume j: "j < length xs"
    show "dict_get (ys ! j) ''linked_sell_order'' = dict_get (xs ! j) ''linked_sell_order''
            \<or> dict_get (ys ! j) ''status'' = JStr ''FILLED''"
    proof (cases "j = idx")
      case True
      then have "ys ! j = e" using shape j by (auto simp: nth_append)
      then show ?thesis using good True by simp
    next
      case False
      then have "ys ! j = xs ! j" using shape j by (auto simp: nth_append)
      then show ?thesis by simp
    qed
  qed
  show ?thesis
    unfolding keeps_def using len frozen changed wl by blast
qed

lemma keeps_append:
  assumes "\<not> linked e"
  shows "keeps xs (xs @ [e])"
  unfolding keeps_def well_linked_iff using assms by (auto simp: nth_append)

lemma synced_trans: "synced a b \<Longrightarrow> synced b c \<Longrightarrow> synced a c"
  unfolding synced_def by auto

lemma evolves_refl [simp]: "evolves st st"
  by (simp add: evolves_def)

lemma evolves_trans: "evolves a b \<Longrightarrow> evolves b c \<Longrightarrow> evolves a c"
  unfolding evolves_def using synced_trans keeps_trans by blast

lemma evolves_say [simp]: "evolves st (say l st)"
  by (simp add: evolves_def)

lemma evolves_quiet: "saved st' = saved st \<Longrightarrow> disk st' = disk st \<Longrightarrow> evolves st st'"
  by (simp add: evolves_def synced_def)

lemma check_entry_evolves:
  assumes "idx < length (orders_of (saved st))"
  shows "evolves st (snd (check_entry env api_key pair srec idx st))"
  unfolding evolves_def
  using check_entry_effect [OF assms, of env api_key pair srec] advances_keeps [OF assms]
  by blast

lemma status_loop_evolves:
  "evolves st (snd (status_loop env api_key pair srec idx st))"
proof (induction env api_key pair srec idx st rule: status_loop.induct)
  case (1 env api_key pair srec idx st)
  show ?case
  proof (cases "idx < length (orders_of (saved st))")
    case False
    then show ?thesis by (subst status_loop.simps) simp
  next
    case True
    obtain r st1 where c: "check_entry env api_key pair srec idx st = (r, st1)"
      by (cases "check_entry env api_key pair srec idx st")
    have e1: "evolves st st1"
      using check_entry_evolves [OF True, of env api_key pair srec] c by simp
    show ?thesis
    proof (cases r)
      case (Inl e)
      then show ?thesis
        using True c e1 by (subst status_loop.simps) simp
    next
      case (Inr u)
      have "evolves st1 (snd (status_loop env api_key pair srec (Suc idx) st1))"
        using "1.IH" [OF True c [symmetric] Inr] .
      with e1 have "evolves st (snd (status_loop env api_key pair srec (Suc idx) st1))"
        by (rule evolves_trans)
      then show ?thesis
        using True c Inr by (subst status_loop.simps) simp
    qed
  qed
qed

lemma check_statuses_evolves:
  "evolves st (snd (check_statuses env api_key pair srec st))"
  using status_loop_evolves [of st env api_key pair srec 0]
  by (auto simp: check_statuses_def split: sum.splits json.splits)

lemma append_order_orders:
  assumes "append_order sv entry = Inr sv'"
  shows "orders_of sv' = orders_of sv @ [entry]"
proof (cases sv)
  case (JObj kvs)
  then show ?thesis
    using assms
    by (auto simp: append_order_def orders_of_def update_conv'
             split: option.splits json.splits)
qed (use assms in \<open>simp_all add: append_order_def\<close>)

lemma buy_entry_unlinked [simp]: "\<not> linked (buy_entry env st pair price qty resp_json)"
  by (simp add: linked_def buy_entry_def)

lemma place_buys_evolves:
  "evolves st (snd (place_buys env api_key pair srec cs st))"
proof (induction cs arbitrary: st)
  case Nil
  then show ?case by simp
next
  case (Cons c cs)
  obtain price qty where c: "c = (price, qty)" by (cases c)
  obtain r st1 where p: "place_order env st api_key pair ''buy'' price qty srec = (r, st1)"
    by (cases "place_order env st api_key pair ''buy'' price qty srec")
  note fr = place_order_frame [OF p]
  have q: "evolves st st1" using fr by (simp add: evolves_quiet)
  have qe: "evolves st (say ERROR st1)" using fr by (simp add: evolves_quiet)
  show ?case
  proof (cases r)
    case (Inl e)
    then show ?thesis
      using p c q evolves_trans [OF qe Cons.IH [of "say ERROR st1"]] by simp
  next
    case (Inr resp_json)
    define entry where "entry = buy_entry env st1 pair price qty resp_json"
    show ?thesis
    proof (cases "append_order (saved st1) entry")
      case (Inl e)
      then show ?thesis
        using p c Inr evolves_trans [OF qe Cons.IH [of "say ERROR st1"]]
        by (simp add: entry_def)
    next
      case ap: (Inr sv)
      define st2 where "st2 = say OK (save_saved (st1\<lparr>saved := sv\<rparr>))"
      have "orders_of (saved st2) = orders_of (saved st) @ [entry]"
        using append_order_orders [OF ap] fr by (simp add: st2_def)
      moreover have "\<not> linked entry" by (simp add: entry_def)
      ultimately have "keeps (orders_of (saved st)) (orders_of (saved st2))"
        by (simp add: keeps_append)
      moreover have "synced st st2" by (simp add: synced_def st2_def)
      ultimately have "evolves st st2" by (simp add: evolves_def)
      from evolves_trans [OF this Cons.IH [of st2]] show ?thesis
        using p c Inr ap by (simp add: entry_def st2_def)
    qed
  qed
qed

lemma map_of_Some_key: "map_of kvs k = Some v \<Longrightarrow> k \<in> fst ` set kvs"
  by (metis map_of_eq_None_iff option.distinct(1))

lemma open_store_effect:
  "disk (snd (open_store st)) = disk st"
  "fst (open_store st) = Inr sv \<Longrightarrow> orders_of sv = stored (disk st)"
proof -
  show "disk (snd (open_store st)) = disk st"
    by (auto simp: open_store_def load_saved_def split: file_state.splits sum.splits)
  show "orders_of sv = stored (disk st)" if "fst (open_store st) = Inr sv"
  proof (cases "disk st")
    case Absent
    then show ?thesis
      using that by (auto simp: open_store_def load_saved_def stored_def empty_store_def
                        orders_of_def)
  next
    case Unparsable
    then show ?thesis
      using that by (auto simp: open_store_def load_saved_def stored_def empty_store_def
                        orders_of_def)
  next
    case (Document j)
    then show ?thesis
      using that
      by (cases j)
         (auto simp: open_store_def load_saved_def stored_def orders_of_def update_conv'
               dest: map_of_Some_key split: if_splits option.splits)
  qed
qed

lemma get_balance_disk [simp]: "disk (snd (get_balance env st api_key currency)) = disk st"
  by (auto simp: get_balance_def try_request_def split: option.splits)

lemma extract_available_usdt_disk [simp]:
  "disk (snd (extract_available_usdt env st bal fallback)) = disk st"
  by (auto simp: extract_available_usdt_def split: sum.splits option.splits)

lemma get_symbols_disk [simp]: "disk (snd (get_symbols env st api_key)) = disk st"
  by (auto simp: get_symbols_def try_request_def split: option.splits)

lemma get_public_best_bid_disk [simp]: "disk (snd (get_public_best_bid env st pair)) = disk st"
  by (auto simp: get_public_best_bid_def try_request_def split: option.splits)

lemma find_best_bid_price_disk [simp]:
  "disk (snd (find_best_bid_price env st api_key pair)) = disk st"
proof -
  obtain r st1 where g: "get_symbols env st api_key = (r, st1)"
    by (cases "get_symbols env st api_key")
  have d1: "disk st1 = disk st"
    using get_symbols_disk [of env st api_key] g by simp
  show ?thesis
    using g d1 get_public_best_bid_disk [of env st1 pair]
    by (auto simp: find_best_bid_price_def split: sum.splits option.splits)
qed

lemma tiers_disk [simp]: "disk (snd (tiers lims use_usdt st)) = disk st"
  by (simp add: tiers_def)

lemma candidates_disk [simp]: "disk (snd (candidates lims best_bid per ds st)) = disk st"
proof (induction ds arbitrary: st)
  case Nil
  then show ?case by simp
next
  case (Cons d ds)
  obtain r s1 where c: "candidates lims best_bid per ds st = (r, s1)"
    by (cases "candidates lims best_bid per ds st")
  have "disk s1 = disk st" using Cons [of st] c by simp
  then show ?case
    using c Cons [of "say SKIP st"] by (cases r) (simp_all add: Let_def)
qed

lemma run_lab_plan_disk: "disk (snd (run_lab_plan env st api_key pair usdt_amount)) = disk st"
proof -
  obtain r1 st1 where a: "get_balance env (say INFO st) api_key ''USDT'' = (r1, st1)"
    by (cases "get_balance env (say INFO st) api_key ''USDT''")
  have d1: "disk st1 = disk st"
    using get_balance_disk [of env "say INFO st" api_key "''USDT''"] a by simp
  show ?thesis
  proof (cases r1)
    case (Inl e)
    then show ?thesis using a d1 by (simp add: run_lab_plan_def)
  next
    case (Inr bal)
    obtain r2 st2 where b: "extract_available_usdt env (say INFO st1) bal usdt_amount = (r2, st2)"
      by (cases "extract_available_usdt env (say INFO st1) bal usdt_amount")
    have d2: "disk st2 = disk st"
      using extract_available_usdt_disk [of env "say INFO st1" bal usdt_amount] b d1 by simp
    show ?thesis
    proof (cases r2)
      case (Inl e)
      then show ?thesis using a Inr b d2 by (simp add: run_lab_plan_def)
    next
      case av: (Inr available_usdt)
      show ?thesis
      proof (cases "usable_funds available_usdt usdt_amount")
        case (Inl e)
        then show ?thesis using a Inr b av d2 by (simp add: run_lab_plan_def)
      next
        case us: (Inr use_usdt)
        obtain r4 st4 where c: "get_symbols env (say INFO (say INFO st2)) (Some api_key) = (r4, st4)"
          by (cases "get_symbols env (say INFO (say INFO st2)) (Some api_key)")
        have d4: "disk st4 = disk st"
          using get_symbols_disk [of env "say INFO (say INFO st2)" "Some api_key"] c d2 by simp
        obtain r5 st5 where f: "find_best_bid_price env st4 (Some api_key) pair = (r5, st5)"
          by (cases "find_best_bid_price env st4 (Some api_key) pair")
        have d5: "disk st5 = disk st"
          using find_best_bid_price_disk [of env st4 "Some api_key" pair] f d4 by simp
        have d7: "disk s7 = disk st"
          if "tiers lims' u (say INFO st5) = (dp, s6)"
            "candidates lims bb (snd dp) (fst dp) s6 = (r7, s7)"
          for lims bb lims' u dp s6 r7 s7
        proof -
          have "disk s6 = disk st"
            using tiers_disk [of lims' u "say INFO st5"] that(1) d5 by simp
          then show ?thesis
            using candidates_disk [of lims bb "snd dp" "fst dp" s6] that(2) by simp
        qed
        show ?thesis
          using a Inr b av us c d4 f d5
          by (auto simp: run_lab_plan_def split: sum.splits prod.splits dest: d7)
      qed
    qed
  qed
qed

lemma agree_synced:
  "orders_of (saved st) = stored (disk st) \<Longrightarrow> synced st st' \<Longrightarrow>
   orders_of (saved st') = stored (disk st')"
  unfolding synced_def by (auto simp: stored_def)

lemma evolves_stored:
  assumes "orders_of (saved st) = stored (disk st)" "evolves st st'"
  shows "keeps (stored (disk st)) (stored (disk st'))"
  using assms agree_synced [OF assms(1), of st'] by (simp add: evolves_def)

lemma run_lab_trade_keeps:
  "keeps (stored (disk st)) (stored (disk (snd (run_lab_trade env st api_key pair srec cs))))"
proof -
  obtain r s1 where o: "open_store st = (r, s1)"
    by (cases "open_store st")
  have d1: "disk s1 = disk st"
    using open_store_effect(1) [of st] o by simp
  show ?thesis
  proof (cases r)
    case (Inl e)
    then show ?thesis using o d1 by (simp add: run_lab_trade_def)
  next
    case (Inr sv)
    define s where "s = say INFO (s1\<lparr>saved := sv\<rparr>)"
    have ag: "orders_of (saved s) = stored (disk s)"
      using open_store_effect(2) [of st sv] o Inr d1 by (simp add: s_def)
    have ds: "disk s = disk st" using d1 by (simp add: s_def)
    obtain r2 s2 where p: "place_buys env api_key pair srec cs s = (r2, s2)"
      by (cases "place_buys env api_key pair srec cs s")
    have e2: "evolves s s2"
      using place_buys_evolves [of s env api_key pair srec cs] p by simp
    show ?thesis
    proof (cases r2)
      case (Inl e)
      then show ?thesis
        using o Inr p evolves_stored [OF ag e2] ds
        by (simp add: run_lab_trade_def s_def [symmetric])
    next
      case u: (Inr u)
      define t where "t = say INFO (say INFO s2)"
      obtain r3 s3 where c: "check_statuses env api_key pair srec t = (r3, s3)"
        by (cases "check_statuses env api_key pair srec t")
      have "evolves t s3"
        using check_statuses_evolves [of t env api_key pair srec] c by simp
      moreover have "evolves s2 t" by (simp add: t_def evolves_quiet)
      ultimately have e3: "evolves s s3"
        using e2 evolves_trans by blast
      have e4: "evolves s (say DONE s3)"
        using e3 evolves_trans [OF _ evolves_say] by blast
      show ?thesis
        using o Inr p u c evolves_stored [OF ag e3] evolves_stored [OF ag e4] ds
        by (cases r3) (simp_all add: run_lab_trade_def s_def [symmetric] t_def [symmetric])
    qed
  qed
qed

lemma run_lab_keeps:
  "keeps (stored (disk st)) (stored (disk (snd (run_lab env st api_key pair usdt_amount))))"
proof -
  obtain r s0 where p: "run_lab_plan env st api_key pair usdt_amount = (r, s0)"
    by (cases "run_lab_plan env st api_key pair usdt_amount")
  have d0: "disk s0 = disk st"
    using run_lab_plan_disk [of env st api_key pair usdt_amount] p by simp
  show ?thesis
  proof (cases r)
    case (Inl e)
    then show ?thesis using p d0 by (simp add: run_lab_def)
  next
    case (Inr x)
    obtain srec cs where x: "x = (srec, cs)" by (cases x)
    show ?thesis
      using p Inr x d0 run_lab_trade_keeps [of s0 env api_key pair srec cs]
      by (simp add: run_lab_def)
  qed
qed

lemma disk_after_keeps: "keeps (stored d) (stored (disk_after r d))"
proof -
  obtain env api_key pair usdt_amount where r: "r = (env, api_key, pair, usdt_amount)"
    by (cases r)
  show ?thesis
    using run_lab_keeps [of "start d" env api_key pair usdt_amount]
    by (simp add: disk_after_def r start_def)
qed

lemma disk_after_all_keeps: "keeps (stored d) (stored (disk_after_all rs d))"
proof (induction rs arbitrary: d)
  case Nil
  then show ?case by simp
next
  case (Cons r rs)
  show ?case
    using keeps_trans [OF disk_after_keeps [of d r] Cons [of "disk_after r d"]] by simp
qed

lemma keeps_well_linked: "keeps xs ys \<Longrightarrow> well_linked xs \<Longrightarrow> well_linked ys"
  by (simp add: keeps_def)

lemma keeps_frozen:
  "keeps xs ys \<Longrightarrow> j < length xs \<Longrightarrow> terminal (xs ! j) \<Longrightarrow> j < length ys \<and> ys ! j = xs ! j"
  by (auto simp: keeps_def)

text \<open>
  C2. Take any file and any sequence of runs, each with its own exchange and arguments.
  A record that is FILLED or CLOSED in the file at some point is the same record, at the
  same place, after any further runs. If in the first file every record with a linked
  sell is FILLED (as in an absent or empty file), the same holds for a record whose
  \<open>linked_sell_order\<close> is not null. Whatever the first file, a record whose
  \<open>linked_sell_order\<close> some runs have changed is not changed by any later run: it is set
  at most once. And the loop body, on a FILLED or CLOSED record, returns the state it
  was given: no request, no sell.
\<close>

theorem linked_sell_set_once:
  "(\<forall>d0 rs rs' j.
      j < length (stored (disk_after_all rs d0))
      \<and> terminal (stored (disk_after_all rs d0) ! j)
      \<longrightarrow> j < length (stored (disk_after_all rs' (disk_after_all rs d0)))
        \<and> stored (disk_after_all rs' (disk_after_all rs d0)) ! j
            = stored (disk_after_all rs d0) ! j)
   \<and> (\<forall>d0 rs rs' j.
      well_linked (stored d0)
      \<and> j < length (stored (disk_after_all rs d0))
      \<and> linked (stored (disk_after_all rs d0) ! j)
      \<longrightarrow> j < length (stored (disk_after_all rs' (disk_after_all rs d0)))
        \<and> stored (disk_after_all rs' (disk_after_all rs d0)) ! j
            = stored (disk_after_all rs d0) ! j)
   \<and> (\<forall>d0 rs rs' j.
      j < length (stored d0)
      \<and> dict_get (stored (disk_after_all rs d0) ! j) ''linked_sell_order''
          \<noteq> dict_get (stored d0 ! j) ''linked_sell_order''
      \<longrightarrow> stored (disk_after_all rs' (disk_after_all rs d0)) ! j
            = stored (disk_after_all rs d0) ! j)
   \<and> (\<forall>env api_key pair srec idx st.
      terminal (orders_of (saved st) ! idx)
      \<longrightarrow> snd (check_entry env api_key pair srec idx st) = st)"
proof (intro conjI allI impI)
  fix d0 rs rs' j
  assume "j < length (stored (disk_after_all rs d0))
          \<and> terminal (stored (disk_after_all rs d0) ! j)"
  then have "j < length (stored (disk_after_all rs' (disk_after_all rs d0)))
        \<and> stored (disk_after_all rs' (disk_after_all rs d0)) ! j
            = stored (disk_after_all rs d0) ! j"
    using keeps_frozen [OF disk_after_all_keeps [of "disk_after_all rs d0" rs']] by blast
  then show "j < length (stored (disk_after_all rs' (disk_after_all rs d0)))"
    and "stored (disk_after_all rs' (disk_after_all rs d0)) ! j
            = stored (disk_after_all rs d0) ! j"
    by simp_all
next
  fix d0 rs rs' j
  assume a: "well_linked (stored d0)
      \<and> j < length (stored (disk_after_all rs d0))
      \<and> linked (stored (disk_after_all rs d0) ! j)"
  then have "well_linked (stored (disk_after_all rs d0))"
    using keeps_well_linked [OF disk_after_all_keeps [of d0 rs]] by blast
  then have "terminal (stored (disk_after_all rs d0) ! j)"
    using a by (auto simp: well_linked_iff intro: filled_terminal)
  then have "j < length (stored (disk_after_all rs' (disk_after_all rs d0)))
        \<and> stored (disk_after_all rs' (disk_after_all rs d0)) ! j
            = stored (disk_after_all rs d0) ! j"
    using a keeps_frozen [OF disk_after_all_keeps [of "disk_after_all rs d0" rs']] by blast
  then show "j < length (stored (disk_after_all rs' (disk_after_all rs d0)))"
    and "stored (disk_after_all rs' (disk_after_all rs d0)) ! j
            = stored (disk_after_all rs d0) ! j"
    by simp_all
next
  fix d0 rs rs' j
  assume a: "j < length (stored d0)
      \<and> dict_get (stored (disk_after_all rs d0) ! j) ''linked_sell_order''
          \<noteq> dict_get (stored d0 ! j) ''linked_sell_order''"
  have k: "keeps (stored d0) (stored (disk_after_all rs d0))"
    by (rule disk_after_all_keeps)
  have "dict_get (stored (disk_after_all rs d0) ! j) ''status'' = JStr ''FILLED''"
    using a k by (auto simp: keeps_def)
  then have "terminal (stored (disk_after_all rs d0) ! j)"
    by (rule filled_terminal)
  moreover have "j < length (stored (disk_after_all rs d0))"
    using a k by (auto simp: keeps_def)
  ultimately show "stored (disk_after_all rs' (disk_after_all rs d0)) ! j
            = stored (disk_after_all rs d0) ! j"
    using keeps_frozen [OF disk_after_all_keeps [of "disk_after_all rs d0" rs']] by blast
next
  fix env api_key pair srec idx and st :: state
  assume "terminal (orders_of (saved st) ! idx)"
  then show "snd (check_entry env api_key pair srec idx st) = st"
    by (rule check_entry_skips)
qed

theorem linked_sell_set_once_witness:
  "linked (stored (disk_after_all [(filling_exchange, ''key'', ''TRX/USDT'', 1)] Absent) ! 0)
   \<and> stored (disk_after_all [(filling_exchange, ''key'', ''TRX/USDT'', 1),
                              (filling_exchange, ''key'', ''TRX/USDT'', 1)] Absent) ! 0
       = stored (disk_after_all [(filling_exchange, ''key'', ''TRX/USDT'', 1)] Absent) ! 0
   \<and> length (stored (disk_after_all [(filling_exchange, ''key'', ''TRX/USDT'', 1)] Absent)) = 2
   \<and> length (stored (disk_after_all [(filling_exchange, ''key'', ''TRX/USDT'', 1),
                                      (filling_exchange, ''key'', ''TRX/USDT'', 1)] Absent)) = 4"
proof -
  let ?r = "(filling_exchange, ''key'', ''TRX/USDT'', 1 :: rat)"
  have w: "well_linked (stored Absent)"
    by (simp add: well_linked_def stored_def)
  have n1: "length (stored (disk_after_all [?r] Absent)) = 2"
    by code_simp
  have l: "linked (stored (disk_after_all [?r] Absent) ! 0)"
    by code_simp
  have n2: "length (stored (disk_after_all [?r, ?r] Absent)) = 4"
    by code_simp
  have h: "well_linked (stored Absent)
      \<and> 0 < length (stored (disk_after_all [?r] Absent))
      \<and> linked (stored (disk_after_all [?r] Absent) ! 0)"
    using w n1 l by simp
  have two: "disk_after_all [?r, ?r] Absent = disk_after_all [?r] (disk_after_all [?r] Absent)"
    by simp
  from linked_sell_set_once [THEN conjunct2, THEN conjunct1, rule_format, OF h, of "[?r]"]
  show ?thesis
    unfolding two using l n1 n2 [unfolded two] by blast
qed

end
